theory Spec2Isabelle
  imports Complex_Main
begin

section \<open>The OrthoSlicer of nipy.neurospin.viz.ortho_slicer\<close>

text \<open>
  A shallow embedding of the class \<open>OrthoSlicer\<close>. A Python float is the real number
  it stands for. Where the class computes with floats, in the layout callback, the
  rounding of each operation is a parameter of the model, and a result that is not a
  finite number is \<open>None\<close>; minimum, maximum and comparison do not round. NaN among
  the inputs is outside the model.
\<close>

subsection \<open>Exceptions\<close>

text \<open>
  The exceptions the module can let through. \<open>ValueError\<close> is what unpacking an array
  of the wrong length raises, \<open>IndexError\<close> what an index outside an array raises,
  \<open>UnboundLocalError\<close> what reading an unassigned local raises, \<open>Raised\<close> anything a
  collaborator (matplotlib, numpy, coord_tools) raises. \<open>EmptyContentError\<close> is a name
  of the specification only: no statement of the source raises it.
\<close>

datatype error =
    ValueError
  | IndexError
  | UnboundLocalError
  | Raised string
  | EmptyContentError

subsection \<open>Views and content bounds\<close>

text \<open>The keys of \<open>self.axes\<close>: \<open>'x'\<close>, \<open>'y'\<close>, \<open>'z'\<close>.\<close>

datatype view = X | Y | Z

text \<open>One entry of \<open>self._object_bounds[ax]\<close>: \<open>(xmin, xmax, ymin, ymax)\<close>.\<close>

type_synonym box = "real \<times> real \<times> real \<times> real"

text \<open>\<open>ndarray.min()\<close> and \<open>ndarray.max()\<close> of a one-dimensional array that is not empty.\<close>

definition amin :: "real list \<Rightarrow> real" where
  "amin xs = fold min (tl xs) (hd xs)"

definition amax :: "real list \<Rightarrow> real" where
  "amax xs = fold max (tl xs) (hd xs)"

text \<open>
  \<open>_get_object_bounds\<close>, on the list stored for one axes. The transposed array of an
  empty list has no rows, so unpacking it into four names raises \<open>ValueError\<close>; a list
  of \<open>n > 0\<close> entries gives the four columns.
\<close>

definition get_object_bounds :: "box list \<Rightarrow> error + box" where
  "get_object_bounds bs =
     (if bs = [] then Inl ValueError
      else
        let xmins = map (\<lambda>(a, b, c, d). a) bs;
            xmaxs = map (\<lambda>(a, b, c, d). b) bs;
            ymins = map (\<lambda>(a, b, c, d). c) bs;
            ymaxs = map (\<lambda>(a, b, c, d). d) bs;
            xmax = max (amax xmaxs) (amax xmins);
            xmin = min (amin xmins) (amin xmaxs);
            ymax = max (amax ymaxs) (amax ymins);
            ymin = min (amin ymins) (amin ymaxs)
        in Inr (xmin, xmax, ymin, ymax))"

subsection \<open>Arrays\<close>

text \<open>
  A numpy array is its shape and its elements; an element outside the shape is never
  read. An index is a Python integer: a negative one counts from the end, one outside
  \<open>-n \<le> i < n\<close> raises \<open>IndexError\<close>.
\<close>

record 'a ndarray2 =
  shape2 :: "nat \<times> nat"
  elem2 :: "nat \<Rightarrow> nat \<Rightarrow> 'a"

record 'a ndarray3 =
  shape3 :: "nat \<times> nat \<times> nat"
  elem3 :: "nat \<Rightarrow> nat \<Rightarrow> nat \<Rightarrow> 'a"

text \<open>The map given to \<open>plot_map\<close>; \<open>mask\<close> is its attribute \<open>mask\<close>, when it has one.\<close>

record 'a volume = "'a ndarray3" +
  mask :: "bool ndarray3 option"

definition norm_index :: "nat \<Rightarrow> int \<Rightarrow> error + nat" where
  "norm_index n i =
     (if 0 \<le> i \<and> i < int n then Inr (nat i)
      else if - int n \<le> i \<and> i < 0 then Inr (nat (int n + i))
      else Inl IndexError)"

text \<open>\<open>m[i, :, :]\<close>, \<open>m[:, j, :]\<close> and \<open>m[:, :, k]\<close>.\<close>

definition take_first :: "('a, 'b) ndarray3_scheme \<Rightarrow> int \<Rightarrow> error + 'a ndarray2" where
  "take_first m i =
     (case shape3 m of (nx, ny, nz) \<Rightarrow>
        (case norm_index nx i of
           Inl e \<Rightarrow> Inl e
         | Inr i' \<Rightarrow> Inr \<lparr>shape2 = (ny, nz), elem2 = (\<lambda>j k. elem3 m i' j k)\<rparr>))"

definition take_second :: "('a, 'b) ndarray3_scheme \<Rightarrow> int \<Rightarrow> error + 'a ndarray2" where
  "take_second m j =
     (case shape3 m of (nx, ny, nz) \<Rightarrow>
        (case norm_index ny j of
           Inl e \<Rightarrow> Inl e
         | Inr j' \<Rightarrow> Inr \<lparr>shape2 = (nx, nz), elem2 = (\<lambda>i k. elem3 m i j' k)\<rparr>))"

definition take_third :: "('a, 'b) ndarray3_scheme \<Rightarrow> int \<Rightarrow> error + 'a ndarray2" where
  "take_third m k =
     (case shape3 m of (nx, ny, nz) \<Rightarrow>
        (case norm_index nz k of
           Inl e \<Rightarrow> Inl e
         | Inr k' \<Rightarrow> Inr \<lparr>shape2 = (nx, ny), elem2 = (\<lambda>i j. elem3 m i j k')\<rparr>))"

text \<open>
  \<open>np.rot90\<close>: a quarter turn counter-clockwise. An array of shape \<open>(a, b)\<close> becomes one
  of shape \<open>(b, a)\<close> whose element \<open>(i, j)\<close> is the element \<open>(j, b - 1 - i)\<close> of the
  argument.
\<close>

definition rot90 :: "'a ndarray2 \<Rightarrow> 'a ndarray2" where
  "rot90 m =
     (case shape2 m of (a, b) \<Rightarrow>
        \<lparr>shape2 = (b, a), elem2 = (\<lambda>i j. elem2 m j (b - 1 - i))\<rparr>)"

text \<open>The rows of an array, to compare two arrays on what they hold.\<close>

definition rows :: "'a ndarray2 \<Rightarrow> 'a list list" where
  "rows m = (case shape2 m of (a, b) \<Rightarrow> map (\<lambda>i. map (elem2 m i) [0..<b]) [0..<a])"

text \<open>\<open>np.logical_not\<close>.\<close>

definition logical_not :: "bool ndarray3 \<Rightarrow> bool ndarray3" where
  "logical_not m = m\<lparr>elem3 := (\<lambda>i j k. \<not> elem3 m i j k)\<rparr>"

text \<open>\<open>int(round(c))\<close>: Python 2 rounds a half away from zero.\<close>

definition py_round :: "real \<Rightarrow> int" where
  "py_round c = (if 0 \<le> c then \<lfloor>c + 1 / 2\<rfloor> else \<lceil>c - 1 / 2\<rceil>)"

text \<open>\<open>'%i' % c\<close>: the number cut towards zero, in decimal.\<close>

definition trunc :: "real \<Rightarrow> int" where
  "trunc c = (if 0 \<le> c then \<lfloor>c\<rfloor> else \<lceil>c\<rceil>)"

fun digits :: "nat \<Rightarrow> string" where
  "digits n =
     (if n < 10 then [char_of (48 + n)]
      else digits (n div 10) @ [char_of (48 + n mod 10)])"

definition show_int :: "int \<Rightarrow> string" where
  "show_int i = (if i < 0 then CHR ''-'' # digits (nat (- i)) else digits (nat i))"

subsection \<open>The slicer and what it calls\<close>

text \<open>Keyword arguments handed on to matplotlib, in the order they were given.\<close>

type_synonym 'kv kwargs = "(string \<times> 'kv) list"

text \<open>
  The calls the slicer makes on a matplotlib axes. \<open>Text\<close> carries the position, the
  string, the two alignments and the size; the transform and the bbox of the source
  are the same in every call and are left out.
\<close>

datatype ('a, 'kv) call =
    AxisOff
  | SetZorder int
  | SetAxesLocator
  | Axvline real real real "'kv kwargs"
  | Axhline real "real option" "'kv kwargs"
  | Text real real string string string int "'kv kwargs"
  | Imshow "'a ndarray2" box "'kv kwargs"
  | Axis box

text \<open>
  The fields of an \<open>OrthoSlicer\<close>. An axes object is the list of the calls it has
  received, oldest first; \<open>object_bounds\<close> is \<open>self._object_bounds\<close>, keyed by the
  name of the axes.
\<close>

record ('a, 'kv) slicer =
  cut_coords :: "real \<times> real \<times> real"
  frame_axes :: "('a, 'kv) call list"
  rect :: "real \<times> real \<times> real \<times> real"
  object_bounds :: "view \<Rightarrow> box list"
  axes :: "view \<Rightarrow> ('a, 'kv) call list"

text \<open>
  \<open>__init__\<close>. The argument \<open>frame\<close> is the position \<open>(x0, y0, x1, y1)\<close> of the axes
  passed in, or \<open>None\<close>: then the slicer makes axes over the whole figure and turns
  their decoration off.
\<close>

definition init ::
  "real \<times> real \<times> real \<Rightarrow> (real \<times> real \<times> real \<times> real) option \<Rightarrow> ('a, 'kv) slicer" where
  "init cc frame =
     \<lparr>cut_coords = cc,
      frame_axes = (case frame of None \<Rightarrow> [AxisOff, SetZorder 1] | Some bb \<Rightarrow> [SetZorder 1]),
      rect = (case frame of None \<Rightarrow> (0, 0, 1, 1) | Some bb \<Rightarrow> bb),
      object_bounds = (\<lambda>ax. []),
      axes = (\<lambda>ax. [AxisOff, SetAxesLocator])\<rparr>"

text \<open>
  A method either returns or raises, and leaves the slicer as it was when it stopped.
\<close>

type_synonym ('s, 'r) prog = "'s \<Rightarrow> (error + 'r) \<times> 's"

definition ret :: "'r \<Rightarrow> ('s, 'r) prog" where
  "ret r s = (Inr r, s)"

definition from_result :: "error + 'r \<Rightarrow> ('s, 'r) prog" where
  "from_result r s = (r, s)"

definition then_do :: "('s, 'r) prog \<Rightarrow> ('r \<Rightarrow> ('s, 'q) prog) \<Rightarrow> ('s, 'q) prog" where
  "then_do m f s = (case m s of (Inl e, s') \<Rightarrow> (Inl e, s') | (Inr r, s') \<Rightarrow> f r s')"

text \<open>
  A call on the axes \<open>ax\<close>. What matplotlib raises is not the slicer's to decide:
  \<open>raises ax c\<close> is the exception the call \<open>c\<close> ends with, if any. That covers a keyword
  given twice, once by the source and once in \<open>kwargs\<close>.
\<close>

definition call_ax ::
  "(view \<Rightarrow> ('a, 'kv) call \<Rightarrow> error option) \<Rightarrow> view \<Rightarrow> ('a, 'kv) call \<Rightarrow>
   (('a, 'kv) slicer, unit) prog" where
  "call_ax raises ax c s =
     (case raises ax c of
        Some e \<Rightarrow> (Inl e, s)
      | None \<Rightarrow> (Inr (), s\<lparr>axes := (axes s)(ax := axes s ax @ [c])\<rparr>))"

text \<open>\<open>self._get_object_bounds(ax)\<close> and \<open>self._object_bounds[ax].append(b)\<close>.\<close>

definition object_bounds_of :: "view \<Rightarrow> (('a, 'kv) slicer, box) prog" where
  "object_bounds_of ax s = (get_object_bounds (object_bounds s ax), s)"

definition append_bounds :: "view \<Rightarrow> box \<Rightarrow> (('a, 'kv) slicer, unit) prog" where
  "append_bounds ax b s =
     (Inr (), s\<lparr>object_bounds := (object_bounds s)(ax := object_bounds s ax @ [b])\<rparr>)"

subsection \<open>Floating point\<close>

text \<open>
  A rounding takes the exact result of an operation to what the operation returns: a
  number, or \<open>None\<close> for a result that is not finite. \<open>exact\<close> is arithmetic without
  rounding.
\<close>

type_synonym rounding = "real \<Rightarrow> real option"

definition exact :: rounding where
  "exact x = Some x"

text \<open>The number of binary digits of a positive integer.\<close>

function bits :: "int \<Rightarrow> nat" where
  "bits n = (if n \<le> 0 then 0 else Suc (bits (n div 2)))"
  by pat_completeness auto
termination
  by (relation "measure nat") auto

text \<open>The \<open>e\<close> with \<open>2 ^ e \<le> x < 2 ^ (e + 1)\<close>, for \<open>x > 0\<close>.\<close>

definition exponent :: "real \<Rightarrow> int" where
  "exponent x =
     (if 1 \<le> x then int (bits \<lfloor>x\<rfloor>) - 1 else - int (bits (\<lceil>1 / x\<rceil> - 1)))"

definition pow2 :: "int \<Rightarrow> real" where
  "pow2 e = (if 0 \<le> e then 2 ^ nat e else 1 / 2 ^ nat (- e))"

definition round_half_even :: "real \<Rightarrow> int" where
  "round_half_even m =
     (let f = \<lfloor>m\<rfloor>; r = m - of_int f
      in if r < 1 / 2 then f else if 1 / 2 < r then f + 1 else if even f then f else f + 1)"

text \<open>
  The rounding of numpy's \<open>float64\<close>: to the nearest number with 53 binary digits, a
  tie to the even one; numbers below \<open>2 ^ -1022\<close> keep the spacing \<open>2 ^ -1074\<close>; a
  result that rounds to \<open>2 ^ 1024\<close> or more is infinite.
\<close>

definition binary64 :: rounding where
  "binary64 x =
     (if x = 0 then Some 0
      else
        let a = \<bar>x\<bar>;
            e = max (exponent a) (- 1022);
            ulp = pow2 (e - 52);
            y = of_int (round_half_even (a / ulp)) * ulp
        in if pow2 1024 \<le> y then None else Some (sgn x * y))"

text \<open>
  Sum, product and quotient of two floats. numpy divides by zero without raising: the
  quotient is not a finite number, and neither is anything computed from it.
\<close>

definition fadd :: "rounding \<Rightarrow> real option \<Rightarrow> real option \<Rightarrow> real option" where
  "fadd rnd a b =
     (case a of None \<Rightarrow> None
      | Some v \<Rightarrow> (case b of None \<Rightarrow> None | Some w \<Rightarrow> rnd (v + w)))"

definition fmul :: "rounding \<Rightarrow> real option \<Rightarrow> real option \<Rightarrow> real option" where
  "fmul rnd a b =
     (case a of None \<Rightarrow> None
      | Some v \<Rightarrow> (case b of None \<Rightarrow> None | Some w \<Rightarrow> rnd (v * w)))"

definition fdiv :: "rounding \<Rightarrow> real option \<Rightarrow> real option \<Rightarrow> real option" where
  "fdiv rnd a b =
     (case a of None \<Rightarrow> None
      | Some v \<Rightarrow>
          (case b of None \<Rightarrow> None | Some w \<Rightarrow> if w = 0 then None else rnd (v / w)))"

subsection \<open>The layout callback\<close>

text \<open>\<open>Bbox([[x0, y0], [x1, y1]])\<close>.\<close>

datatype bbox = Bbox "real option" real "real option" real

text \<open>The first loop of \<open>_locator\<close>, for one axes: the width of what it shows.\<close>

definition content_width :: "rounding \<Rightarrow> ('a, 'kv) slicer \<Rightarrow> view \<Rightarrow> error + real option" where
  "content_width rnd s ax =
     (case get_object_bounds (object_bounds s ax) of
        Inl e \<Rightarrow> Inl e
      | Inr (xmin, xmax, ymin, ymax) \<Rightarrow> Inr (rnd (xmax - xmin)))"

text \<open>
  The two loops of \<open>_locator\<close>: \<open>width_dict\<close> as the second loop leaves it. The first
  loop visits the three axes in the order of the dictionary; every visit can only
  raise the same \<open>ValueError\<close>, so that order is not seen from outside. \<open>order\<close> is the
  order in which \<open>width_dict.values()\<close> lists the axes to \<open>sum\<close>, which starts from 0.
\<close>

definition band_widths ::
  "rounding \<Rightarrow> view list \<Rightarrow> ('a, 'kv) slicer \<Rightarrow> error + (view \<Rightarrow> real option)" where
  "band_widths rnd order s =
     (case rect s of (x0, y0, x1, y1) \<Rightarrow>
      (case content_width rnd s X of Inl e \<Rightarrow> Inl e | Inr wx \<Rightarrow>
      (case content_width rnd s Y of Inl e \<Rightarrow> Inl e | Inr wy \<Rightarrow>
      (case content_width rnd s Z of Inl e \<Rightarrow> Inl e | Inr wz \<Rightarrow>
         let width_dict = (\<lambda>a. case a of X \<Rightarrow> wx | Y \<Rightarrow> wy | Z \<Rightarrow> wz);
             total_width = fold (\<lambda>a acc. fadd rnd acc (width_dict a)) order (Some 0)
         in Inr (\<lambda>a. fmul rnd (fdiv rnd (width_dict a) total_width) (rnd (x1 - x0)))))))"

text \<open>\<open>_locator\<close>. The renderer is not used.\<close>

definition locator :: "rounding \<Rightarrow> view list \<Rightarrow> ('a, 'kv) slicer \<Rightarrow> view \<Rightarrow> error + bbox" where
  "locator rnd order s ax =
     (case rect s of (x0, y0, x1, y1) \<Rightarrow>
      (case band_widths rnd order s of Inl e \<Rightarrow> Inl e | Inr width_dict \<Rightarrow>
         let left_dict = (\<lambda>a. case a of
                              X \<Rightarrow> Some x0
                            | Y \<Rightarrow> fadd rnd (Some x0) (width_dict X)
                            | Z \<Rightarrow> fadd rnd (fadd rnd (Some x0) (width_dict X)) (width_dict Y))
         in Inr (Bbox (left_dict ax) 0 (fadd rnd (left_dict ax) (width_dict ax)) 1)))"

subsection \<open>Crosshair and annotations\<close>

text \<open>
  \<open>draw_cross\<close>. Between the two views it draws on first, the source asks for the
  bounds of the \<open>'y'\<close> axes and does not use them.
\<close>

definition draw_cross ::
  "(view \<Rightarrow> ('a, 'kv) call \<Rightarrow> error option) \<Rightarrow> (real \<times> real \<times> real) option \<Rightarrow> 'kv kwargs \<Rightarrow>
   (('a, 'kv) slicer, unit) prog" where
  "draw_cross raises cc kwargs s =
     (case (case cc of None \<Rightarrow> cut_coords s | Some c \<Rightarrow> c) of (x, y, z) \<Rightarrow>
        then_do (call_ax raises X (Axvline x 0.05 0.95 kwargs)) (\<lambda>_.
        then_do (call_ax raises X (Axhline z None kwargs)) (\<lambda>_.
        then_do (object_bounds_of Y) (\<lambda>_.
        then_do (call_ax raises Y (Axvline y 0.05 0.95 kwargs)) (\<lambda>_.
        then_do (call_ax raises Y (Axhline z (Some 0.95) kwargs)) (\<lambda>_.
        then_do (call_ax raises Z (Axvline x 0.05 0.95 kwargs)) (\<lambda>_.
        call_ax raises Z (Axhline y None kwargs))))))) s)"

text \<open>A local variable that is read: unassigned, it raises.\<close>

definition local_var :: "'r option \<Rightarrow> ('s, 'r) prog" where
  "local_var v s = (case v of None \<Rightarrow> (Inl UnboundLocalError, s) | Some r \<Rightarrow> (Inr r, s))"

text \<open>
  \<open>annotate\<close>, its argument \<open>size\<close> written \<open>fontsize\<close>. The locals \<open>ax_z\<close> and \<open>ax_x\<close> are assigned in the first branch only.
\<close>

definition annotate ::
  "(view \<Rightarrow> ('a, 'kv) call \<Rightarrow> error option) \<Rightarrow> bool \<Rightarrow> bool \<Rightarrow> int \<Rightarrow> 'kv kwargs \<Rightarrow>
   (('a, 'kv) slicer, unit) prog" where
  "annotate raises left_right positions fontsize kwargs =
     then_do
       (if left_right then
          then_do (call_ax raises Z (Text 0.1 0.95 ''L'' ''left'' ''top'' fontsize kwargs)) (\<lambda>_.
          then_do (call_ax raises Z (Text 0.9 0.95 ''R'' ''right'' ''top'' fontsize kwargs)) (\<lambda>_.
          then_do (call_ax raises X (Text 0.1 0.95 ''L'' ''left'' ''top'' fontsize kwargs)) (\<lambda>_.
          then_do (call_ax raises X (Text 0.9 0.95 ''R'' ''right'' ''top'' fontsize kwargs)) (\<lambda>_.
          ret (Some Z, Some X)))))
        else ret (None, None))
       (\<lambda>(ax_z, ax_x).
          if positions then
            (\<lambda>s. (case cut_coords s of (x, y, z) \<Rightarrow>
               then_do (local_var ax_x) (\<lambda>a.
               then_do (call_ax raises a
                          (Text 0 0 (''y='' @ show_int (trunc y)) ''left'' ''bottom'' fontsize kwargs)) (\<lambda>_.
               then_do (call_ax raises Y
                          (Text 0 0 (''x='' @ show_int (trunc x)) ''left'' ''bottom'' fontsize kwargs)) (\<lambda>_.
               then_do (local_var ax_z) (\<lambda>a.
               call_ax raises a
                 (Text 0 0 (''z='' @ show_int (trunc z)) ''left'' ''bottom'' fontsize kwargs))))) s))
          else ret ())"

subsection \<open>Plotting a map\<close>

type_synonym bounds6 = "real \<times> real \<times> real \<times> real \<times> real \<times> real"

text \<open>
  What \<open>plot_map\<close> calls and this file does not hold: \<open>coord_transform\<close>, \<open>get_bounds\<close>
  and \<open>get_mask_bounds\<close> of \<open>coord_tools\<close>, numpy's inverse, minimum and maximum, and
  matplotlib. Each is a parameter that answers with a value or an exception.
  \<open>world_to_voxel x y z affine\<close> stands for
  \<open>coord_transform(x, y, z, np.linalg.inv(affine))\<close>.
\<close>

record ('aff, 'a, 'kv) env =
  world_to_voxel :: "real \<Rightarrow> real \<Rightarrow> real \<Rightarrow> 'aff \<Rightarrow> error + real \<times> real \<times> real"
  get_bounds :: "nat \<times> nat \<times> nat \<Rightarrow> 'aff \<Rightarrow> error + bounds6"
  get_mask_bounds :: "bool ndarray3 \<Rightarrow> 'aff \<Rightarrow> error + bounds6"
  map_min :: "'a volume \<Rightarrow> error + 'kv"
  map_max :: "'a volume \<Rightarrow> error + 'kv"
  ax_raises :: "view \<Rightarrow> ('a, 'kv) call \<Rightarrow> error option"

text \<open>
  The block \<open>plot_map\<close> runs for each view: the slice is taken and turned, shown with
  its extent, the bounds are appended, and the limits of the axes are set to the
  bounds of all that the view holds.
\<close>

definition plot_view ::
  "(view \<Rightarrow> ('a, 'kv) call \<Rightarrow> error option) \<Rightarrow> view \<Rightarrow> error + 'a ndarray2 \<Rightarrow> box \<Rightarrow> box \<Rightarrow>
   'kv kwargs \<Rightarrow> (('a, 'kv) slicer, unit) prog" where
  "plot_view raises ax sl extent entry kwargs =
     then_do (from_result sl) (\<lambda>m.
     then_do (call_ax raises ax (Imshow (rot90 m) extent kwargs)) (\<lambda>_.
     then_do (append_bounds ax entry) (\<lambda>_.
     then_do (object_bounds_of ax) (\<lambda>b.
     call_ax raises ax (Axis b)))))"

text \<open>
  \<open>plot_map\<close>, its first lines: the voxel indices of the cut, the bounds of the map,
  the bounds of its unmasked part (those of the map when it has no mask), and the
  keyword arguments with the value range filled in. Nothing here changes the slicer.
\<close>

definition plot_map_setup ::
  "('aff, 'a, 'kv) env \<Rightarrow> 'a volume \<Rightarrow> 'aff \<Rightarrow> 'kv kwargs \<Rightarrow> real \<times> real \<times> real \<Rightarrow>
   error + ((int \<times> int \<times> int) \<times> bounds6 \<times> bounds6 \<times> 'kv kwargs)" where
  "plot_map_setup E vol affine kwargs cc =
     (case cc of (x, y, z) \<Rightarrow>
      (case world_to_voxel E x y z affine of Inl e \<Rightarrow> Inl e | Inr (cx, cy, cz) \<Rightarrow>
      (case get_bounds E (shape3 vol) affine of Inl e \<Rightarrow> Inl e | Inr full \<Rightarrow>
      (case (case mask vol of
               None \<Rightarrow> Inr full
             | Some m \<Rightarrow> get_mask_bounds E (logical_not m) affine) of
         Inl e \<Rightarrow> Inl e
       | Inr tight \<Rightarrow>
      (case (if ''vmin'' \<in> fst ` set kwargs then Inr kwargs
             else (case map_min E vol of Inl e \<Rightarrow> Inl e
                   | Inr v \<Rightarrow> Inr (kwargs @ [(''vmin'', v)]))) of
         Inl e \<Rightarrow> Inl e
       | Inr kwargs1 \<Rightarrow>
      (case (if ''vmax'' \<in> fst ` set kwargs1 then Inr kwargs1
             else (case map_max E vol of Inl e \<Rightarrow> Inl e
                   | Inr v \<Rightarrow> Inr (kwargs1 @ [(''vmax'', v)]))) of
         Inl e \<Rightarrow> Inl e
       | Inr kwargs2 \<Rightarrow>
           Inr ((py_round cx, py_round cy, py_round cz), full, tight, kwargs2)))))))"

text \<open>\<open>plot_map\<close>: the first lines, then the three views in the order of the source.\<close>

definition plot_map ::
  "('aff, 'a, 'kv) env \<Rightarrow> 'a volume \<Rightarrow> 'aff \<Rightarrow> 'kv kwargs \<Rightarrow> (('a, 'kv) slicer, unit) prog" where
  "plot_map E vol affine kwargs s =
     (case plot_map_setup E vol affine kwargs (cut_coords s) of
        Inl e \<Rightarrow> (Inl e, s)
      | Inr ((x_map, y_map, z_map),
             (xmin, xmax, ymin, ymax, zmin, zmax),
             (xmin', xmax', ymin', ymax', zmin', zmax'), kwargs') \<Rightarrow>
          then_do (plot_view (ax_raises E) X (take_second vol y_map)
                     (xmin, xmax, zmin, zmax) (xmin', xmax', zmin', zmax') kwargs') (\<lambda>_.
          then_do (plot_view (ax_raises E) Y (take_first vol x_map)
                     (ymin, ymax, zmin, zmax) (ymin', ymax', zmin', zmax') kwargs') (\<lambda>_.
          plot_view (ax_raises E) Z (take_third vol z_map)
            (xmin, xmax, ymin, ymax) (xmin', xmax', ymin', ymax') kwargs')) s)"

subsection \<open>Appending several entries\<close>

text \<open>\<open>self._object_bounds[ax].append(b)\<close>, once for each entry of a list, in order.\<close>

fun append_all :: "view \<Rightarrow> box list \<Rightarrow> ('a, 'kv) slicer \<Rightarrow> ('a, 'kv) slicer" where
  "append_all ax [] s = s"
| "append_all ax (b # bs) s = append_all ax bs (snd (append_bounds ax b s))"

text \<open>The images a view was asked to show, as rows, each with its extent.\<close>

fun shown :: "('a, 'kv) call list \<Rightarrow> ('a list list \<times> box) list" where
  "shown [] = []"
| "shown (Imshow m extent kwargs # cs) = (rows m, extent) # shown cs"
| "shown (c # cs) = shown cs"

subsection \<open>The bounds helpers of coord_tools\<close>

text \<open>
  Modelled from the spec: the affine transform that \<open>get_bounds\<close> and \<open>get_mask_bounds\<close>
  of \<open>coord_tools\<close> take, whose source is not in this repository segment. It is the
  first three rows of the affine matrix; \<open>apply_affine\<close> is the point a voxel index is
  sent to, in exact arithmetic.
\<close>

type_synonym affine =
  "(real \<times> real \<times> real \<times> real) \<times> (real \<times> real \<times> real \<times> real) \<times> (real \<times> real \<times> real \<times> real)"

definition apply_affine :: "affine \<Rightarrow> real \<times> real \<times> real \<Rightarrow> real \<times> real \<times> real" where
  "apply_affine A p =
     (case A of ((a11, a12, a13, a14), (a21, a22, a23, a24), (a31, a32, a33, a34)) \<Rightarrow>
      (case p of (i, j, k) \<Rightarrow>
         (a11 * i + a12 * j + a13 * k + a14,
          a21 * i + a22 * j + a23 * k + a24,
          a31 * i + a32 * j + a33 * k + a34)))"

definition identity_affine :: affine where
  "identity_affine = ((1, 0, 0, 0), (0, 1, 0, 0), (0, 0, 1, 0))"

text \<open>
  Modelled from the spec: the "axis-aligned bound" of a list of points that is not
  empty, as both helpers of \<open>coord_tools\<close> return it.
\<close>

definition bounds_of :: "(real \<times> real \<times> real) list \<Rightarrow> bounds6" where
  "bounds_of ps =
     (amin (map (\<lambda>(x, y, z). x) ps), amax (map (\<lambda>(x, y, z). x) ps),
      amin (map (\<lambda>(x, y, z). y) ps), amax (map (\<lambda>(x, y, z). y) ps),
      amin (map (\<lambda>(x, y, z). z) ps), amax (map (\<lambda>(x, y, z). z) ps))"

text \<open>
  Modelled from the spec: the corners that \<open>get_bounds\<close> transforms, the first and the
  last voxel index on each axis.
\<close>

definition corners :: "nat \<times> nat \<times> nat \<Rightarrow> (real \<times> real \<times> real) list" where
  "corners sh =
     (case sh of (nx, ny, nz) \<Rightarrow>
        concat (map (\<lambda>i. concat (map (\<lambda>j. map (\<lambda>k. (i, j, k)) [0, real nz - 1])
                                   [0, real ny - 1]))
                 [0, real nx - 1]))"

text \<open>
  Modelled from the spec: \<open>get_bounds\<close> of \<open>coord_tools\<close>, whose source is not in this
  repository segment. "Given a voxel-grid shape and affine, returns the world-space
  axis-aligned bounding box", "an axis-aligned bound over the transformed corners".
\<close>

definition spec_get_bounds :: "nat \<times> nat \<times> nat \<Rightarrow> affine \<Rightarrow> error + bounds6" where
  "spec_get_bounds sh A = Inr (bounds_of (map (apply_affine A) (corners sh)))"

text \<open>
  Modelled from the spec: the "valid voxels" of \<open>get_mask_bounds\<close>, the indices a
  validity mask lets through.
\<close>

definition valid_voxels :: "bool ndarray3 \<Rightarrow> (nat \<times> nat \<times> nat) list" where
  "valid_voxels m =
     (case shape3 m of (nx, ny, nz) \<Rightarrow>
        concat (map (\<lambda>i. concat (map (\<lambda>j. map (\<lambda>k. (i, j, k))
                                            (filter (\<lambda>k. elem3 m i j k) [0..<nz]))
                                   [0..<ny]))
                 [0..<nx]))"

text \<open>
  Modelled from the spec: \<open>get_mask_bounds\<close> of \<open>coord_tools\<close>, whose source is not in
  this repository segment. "Given a validity mask and affine, returns the tighter
  bounding box over valid voxels only": the bounds of the points the valid voxels are
  sent to. The specification does not say what is returned when no voxel is valid;
  an exception stands for it, and no property below depends on that case.
\<close>

definition spec_get_mask_bounds :: "bool ndarray3 \<Rightarrow> affine \<Rightarrow> error + bounds6" where
  "spec_get_mask_bounds valid A =
     (if valid_voxels valid = [] then Inl (Raised ''no valid voxel'')
      else Inr (bounds_of
                  (map (\<lambda>(i, j, k). apply_affine A (real i, real j, real k))
                     (valid_voxels valid))))"

subsection \<open>Concrete slicers, maps and collaborators\<close>

text \<open>A slicer just made, with the cut at \<open>(1, 2, 3)\<close> and nothing plotted.\<close>

definition fresh :: "(real, real) slicer" where
  "fresh = init (1, 2, 3) None"

text \<open>A slicer whose three views hold content of widths 1, 2 and 3.\<close>

definition demo :: "(real, real) slicer" where
  "demo = (init (0, 0, 0) None)
     \<lparr>object_bounds :=
        (\<lambda>ax. case ax of X \<Rightarrow> [(0, 1, 0, 1)] | Y \<Rightarrow> [(0, 2, 0, 1)] | Z \<Rightarrow> [(0, 3, 0, 1)])\<rparr>"

text \<open>A slicer whose three views hold content of widths 2, 7 and 1.\<close>

definition demo271 :: "(real, real) slicer" where
  "demo271 = (init (0, 0, 0) None)
     \<lparr>object_bounds :=
        (\<lambda>ax. case ax of X \<Rightarrow> [(0, 2, 0, 1)] | Y \<Rightarrow> [(0, 7, 0, 1)] | Z \<Rightarrow> [(0, 1, 0, 1)])\<rparr>"

text \<open>A matplotlib that accepts every call.\<close>

definition no_raise :: "view \<Rightarrow> (real, real) call \<Rightarrow> error option" where
  "no_raise ax c = None"

text \<open>The values of a map, first index slowest.\<close>

definition values_of :: "'a volume \<Rightarrow> 'a list" where
  "values_of vol =
     (case shape3 vol of (nx, ny, nz) \<Rightarrow>
        concat (map (\<lambda>i. concat (map (\<lambda>j. map (\<lambda>k. elem3 vol i j k) [0..<nz]) [0..<ny]))
                 [0..<nx]))"

text \<open>
  Collaborators for maps given with the identity affine: the voxel coordinates of a
  point are its world coordinates, the bounds are those modelled above, the minimum
  and the maximum are taken over all the values and raise on a map without values,
  matplotlib accepts every call.
\<close>

definition demo_env :: "(affine, real, real) env" where
  "demo_env =
     \<lparr>world_to_voxel = (\<lambda>x y z A. Inr (x, y, z)),
      get_bounds = spec_get_bounds,
      get_mask_bounds = spec_get_mask_bounds,
      map_min = (\<lambda>vol. if values_of vol = [] then Inl ValueError
                        else Inr (amin (values_of vol))),
      map_max = (\<lambda>vol. if values_of vol = [] then Inl ValueError
                        else Inr (amax (values_of vol))),
      ax_raises = no_raise\<rparr>"

text \<open>The same with an affine that numpy cannot invert.\<close>

definition singular_env :: "(affine, real, real) env" where
  "singular_env = demo_env\<lparr>world_to_voxel := (\<lambda>x y z A. Inl (Raised ''LinAlgError''))\<rparr>"

text \<open>A map of shape \<open>(2, 2, 2)\<close> whose voxel \<open>(i, j, k)\<close> holds \<open>4 i + 2 j + k\<close>.\<close>

definition cube :: "real volume" where
  "cube = \<lparr>shape3 = (2, 2, 2), elem3 = (\<lambda>i j k. real (4 * i + 2 * j + k)), mask = None\<rparr>"

text \<open>A map of a single voxel.\<close>

definition one_voxel :: "real volume" where
  "one_voxel = \<lparr>shape3 = (1, 1, 1), elem3 = (\<lambda>i j k. 0), mask = None\<rparr>"

text \<open>
  A column of three voxels along the third axis, with a mask that hides all of them
  but the middle one.
\<close>

definition column :: "real volume" where
  "column =
     \<lparr>shape3 = (1, 1, 3), elem3 = (\<lambda>i j k. real k),
      mask = Some \<lparr>shape3 = (1, 1, 3), elem3 = (\<lambda>i j k. k \<noteq> 1)\<rparr>\<rparr>"

text \<open>
  A map of shape \<open>(3, 3, 3)\<close> with a mask that hides every voxel but \<open>(1, 2, 0)\<close>.
\<close>

definition masked_cube :: "real volume" where
  "masked_cube =
     \<lparr>shape3 = (3, 3, 3), elem3 = (\<lambda>i j k. real (9 * i + 3 * j + k)),
      mask = Some \<lparr>shape3 = (3, 3, 3), elem3 = (\<lambda>i j k. \<not> (i = 1 \<and> j = 2 \<and> k = 0))\<rparr>\<rparr>"

section \<open>Properties\<close>

subsection \<open>Minimum, maximum and sequencing\<close>

lemma amin_Min: "xs \<noteq> [] \<Longrightarrow> amin xs = Min (set xs)"
proof (cases xs)
  case (Cons a list)
  then show ?thesis using Min.set_eq_fold [of a list] by (simp add: amin_def)
qed simp

lemma amax_Max: "xs \<noteq> [] \<Longrightarrow> amax xs = Max (set xs)"
proof (cases xs)
  case (Cons a list)
  then show ?thesis using Max.set_eq_fold [of a list] by (simp add: amax_def)
qed simp

lemma then_do_Inr:
  "then_do m f s = (Inr r, s') \<longleftrightarrow> (\<exists>a t. m s = (Inr a, t) \<and> f a t = (Inr r, s'))"
  by (auto simp: then_do_def split: prod.splits sum.splits)

lemma then_do_Inl:
  "then_do m f s = (Inl e, s') \<longleftrightarrow>
     m s = (Inl e, s') \<or> (\<exists>a t. m s = (Inr a, t) \<and> f a t = (Inl e, s'))"
  by (auto simp: then_do_def split: prod.splits sum.splits)

lemma get_object_bounds_Inr: "bs \<noteq> [] \<Longrightarrow> \<exists>b. get_object_bounds bs = Inr b"
  by (simp add: get_object_bounds_def Let_def)

lemma get_object_bounds_Inl: "get_object_bounds bs = Inl e \<Longrightarrow> e = ValueError \<and> bs = []"
  by (simp add: get_object_bounds_def Let_def split: if_splits)

subsection \<open>The layout callback\<close>

lemma fold_fadd_exact:
  "fold (\<lambda>a acc. fadd exact acc (Some (w a))) order (Some t) = Some (t + sum_list (map w order))"
  by (induction order arbitrary: t) (simp_all add: fadd_def exact_def add.assoc)

lemma sum_three_views:
  assumes "distinct order" and "set order = {X, Y, Z}"
  shows "sum_list (map w order) = w X + w Y + (w Z :: real)"
proof -
  have "sum_list (map w order) = sum w (set order)"
    using assms(1) by (simp add: sum_list_distinct_conv_sum_set)
  also have "\<dots> = w X + w Y + w Z" unfolding assms(2) by simp
  finally show ?thesis .
qed

lemma band_widths_exact:
  assumes "rect s = (x0, y0, x1, y1)"
    and "distinct order" and "set order = {X, Y, Z}"
    and "content_width exact s X = Inr (Some w1)" and "content_width exact s Y = Inr (Some w2)"
    and "content_width exact s Z = Inr (Some w3)"
    and "w1 + w2 + w3 \<noteq> 0"
  shows "band_widths exact order s =
           Inr (\<lambda>a. Some ((case a of X \<Rightarrow> w1 | Y \<Rightarrow> w2 | Z \<Rightarrow> w3) / (w1 + w2 + w3) * (x1 - x0)))"
proof -
  let ?w = "\<lambda>a. case a of X \<Rightarrow> w1 | Y \<Rightarrow> w2 | Z \<Rightarrow> w3"
  have eq: "(\<lambda>a. case a of X \<Rightarrow> Some w1 | Y \<Rightarrow> Some w2 | Z \<Rightarrow> Some w3) = (\<lambda>a. Some (?w a))"
    by (auto simp: fun_eq_iff split: view.splits)
  have tot: "fold (\<lambda>a acc. fadd exact acc (Some (?w a))) order (Some 0) = Some (w1 + w2 + w3)"
    using fold_fadd_exact [of ?w order 0] sum_three_views [OF assms(2,3), of ?w] by simp
  show ?thesis
    using assms(1,4-7) tot
    by (simp add: band_widths_def Let_def eq fdiv_def fmul_def exact_def)
qed

lemma band_widths_defined:
  assumes "content_width exact s X = Inr a" and "content_width exact s Y = Inr b"
    and "content_width exact s Z = Inr c"
  shows "\<exists>d. band_widths rnd order s = Inr d"
  using assms
  by (auto simp: band_widths_def content_width_def Let_def split: sum.splits prod.splits)

lemma locator_of_band_widths:
  assumes "rect s = (x0, y0, x1, y1)" and "band_widths rnd order s = Inr d"
  shows "locator rnd order s X = Inr (Bbox (Some x0) 0 (fadd rnd (Some x0) (d X)) 1)"
    and "locator rnd order s Y =
           Inr (Bbox (fadd rnd (Some x0) (d X)) 0
                  (fadd rnd (fadd rnd (Some x0) (d X)) (d Y)) 1)"
    and "locator rnd order s Z =
           Inr (Bbox (fadd rnd (fadd rnd (Some x0) (d X)) (d Y)) 0
                  (fadd rnd (fadd rnd (fadd rnd (Some x0) (d X)) (d Y)) (d Z)) 1)"
  using assms by (simp_all add: locator_def)

text \<open>
  Claim C1, as the code has it. When the three views hold content of positive widths
  \<open>w1\<close>, \<open>w2\<close>, \<open>w3\<close>, then in exact arithmetic the callback gives the view \<open>i\<close> a
  band of width \<open>w\<^sub>i / (w1 + w2 + w3)\<close> times the horizontal extent \<open>x1 - x0\<close> of the
  frame: the widths add up to the extent, the last band ends at \<open>x1\<close>, and the widths
  are to one another as the content widths (as quotients when the extent is not zero,
  all the widths being zero otherwise). Under every rounding the callback returns the
  rectangle \<open>(left, 0, left + width, 1)\<close>, and the bands follow one another from \<open>x0\<close>
  in the order \<open>'x'\<close>, \<open>'y'\<close>, \<open>'z'\<close>: each begins where the one before it ends.
\<close>

theorem locator_proportional_bands:
  assumes "rect s = (x0, y0, x1, y1)"
    and "distinct order" and "set order = {X, Y, Z}"
    and "content_width exact s X = Inr (Some w1)" and "content_width exact s Y = Inr (Some w2)"
    and "content_width exact s Z = Inr (Some w3)"
    and "0 < w1" and "0 < w2" and "0 < w3"
  shows "let total = w1 + w2 + w3; extent = x1 - x0;
             d1 = w1 / total * extent; d2 = w2 / total * extent; d3 = w3 / total * extent
         in locator exact order s X = Inr (Bbox (Some x0) 0 (Some (x0 + d1)) 1) \<and>
            locator exact order s Y = Inr (Bbox (Some (x0 + d1)) 0 (Some (x0 + d1 + d2)) 1) \<and>
            locator exact order s Z =
              Inr (Bbox (Some (x0 + d1 + d2)) 0 (Some (x0 + d1 + d2 + d3)) 1) \<and>
            d1 + d2 + d3 = extent \<and> x0 + d1 + d2 + d3 = x1 \<and>
            d1 * w2 = d2 * w1 \<and> d1 * w3 = d3 * w1 \<and> d2 * w3 = d3 * w2 \<and>
            (extent \<noteq> 0 \<longrightarrow>
               d1 / d2 = w1 / w2 \<and> d1 / d3 = w1 / w3 \<and> d2 / d3 = w2 / w3 \<and>
               d2 / d1 = w2 / w1 \<and> d3 / d1 = w3 / w1 \<and> d3 / d2 = w3 / w2) \<and>
            (\<forall>rnd. \<exists>d. band_widths rnd order s = Inr d \<and>
               locator rnd order s X = Inr (Bbox (Some x0) 0 (fadd rnd (Some x0) (d X)) 1) \<and>
               locator rnd order s Y =
                 Inr (Bbox (fadd rnd (Some x0) (d X)) 0
                        (fadd rnd (fadd rnd (Some x0) (d X)) (d Y)) 1) \<and>
               locator rnd order s Z =
                 Inr (Bbox (fadd rnd (fadd rnd (Some x0) (d X)) (d Y)) 0
                        (fadd rnd (fadd rnd (fadd rnd (Some x0) (d X)) (d Y)) (d Z)) 1))"
proof -
  let ?t = "w1 + w2 + w3"
  let ?e = "x1 - x0"
  let ?d1 = "w1 / ?t * ?e"
  let ?d2 = "w2 / ?t * ?e"
  let ?d3 = "w3 / ?t * ?e"
  have tne: "?t \<noteq> 0" using assms(7-9) by simp
  have wne: "w1 \<noteq> 0" "w2 \<noteq> 0" "w3 \<noteq> 0" using assms(7-9) by simp_all
  note bw = band_widths_exact [OF assms(1-6) tne]
  have LX: "locator exact order s X = Inr (Bbox (Some x0) 0 (Some (x0 + ?d1)) 1)"
    using locator_of_band_widths(1) [OF assms(1) bw] by (simp add: fadd_def exact_def)
  have LY: "locator exact order s Y = Inr (Bbox (Some (x0 + ?d1)) 0 (Some (x0 + ?d1 + ?d2)) 1)"
    using locator_of_band_widths(2) [OF assms(1) bw] by (simp add: fadd_def exact_def)
  have LZ: "locator exact order s Z =
              Inr (Bbox (Some (x0 + ?d1 + ?d2)) 0 (Some (x0 + ?d1 + ?d2 + ?d3)) 1)"
    using locator_of_band_widths(3) [OF assms(1) bw] by (simp add: fadd_def exact_def)
  have S: "?d1 + ?d2 + ?d3 = ?e"
  proof -
    have "?d1 + ?d2 + ?d3 = ?t / ?t * ?e"
      by (simp only: add_divide_distrib distrib_right)
    then show ?thesis using tne by simp
  qed
  have S': "x0 + ?d1 + ?d2 + ?d3 = x1"
    using S by linarith
  have cross: "a / ?t * ?e * b = b / ?t * ?e * a" for a b :: real
    by simp
  have ratio: "a / ?t * ?e / (b / ?t * ?e) = a / b" if "?e \<noteq> 0" "b \<noteq> 0" for a b :: real
    using that tne by simp
  have R: "?e \<noteq> 0 \<longrightarrow>
             ?d1 / ?d2 = w1 / w2 \<and> ?d1 / ?d3 = w1 / w3 \<and> ?d2 / ?d3 = w2 / w3 \<and>
             ?d2 / ?d1 = w2 / w1 \<and> ?d3 / ?d1 = w3 / w1 \<and> ?d3 / ?d2 = w3 / w2"
    using ratio wne by blast
  have F: "\<exists>d. band_widths rnd order s = Inr d \<and>
               locator rnd order s X = Inr (Bbox (Some x0) 0 (fadd rnd (Some x0) (d X)) 1) \<and>
               locator rnd order s Y =
                 Inr (Bbox (fadd rnd (Some x0) (d X)) 0
                        (fadd rnd (fadd rnd (Some x0) (d X)) (d Y)) 1) \<and>
               locator rnd order s Z =
                 Inr (Bbox (fadd rnd (fadd rnd (Some x0) (d X)) (d Y)) 0
                        (fadd rnd (fadd rnd (fadd rnd (Some x0) (d X)) (d Y)) (d Z)) 1)" for rnd
  proof -
    obtain d where d: "band_widths rnd order s = Inr d"
      using band_widths_defined [OF assms(4-6)] by blast
    show ?thesis using d locator_of_band_widths [OF assms(1) d] by blast
  qed
  show ?thesis
    unfolding Let_def
    using LX LY LZ S S' cross [of w1 w2] cross [of w1 w3] cross [of w2 w3] R F by blast
qed

theorem locator_proportional_bands_witness:
  "rect demo = (0, 0, 1, 1) \<and> distinct [Z, X, Y] \<and> set [Z, X, Y] = {X, Y, Z} \<and>
   content_width exact demo X = Inr (Some 1) \<and> content_width exact demo Y = Inr (Some 2) \<and>
   content_width exact demo Z = Inr (Some 3) \<and>
   locator exact [Z, X, Y] demo X = Inr (Bbox (Some 0) 0 (Some (1 / 6)) 1) \<and>
   locator exact [Z, X, Y] demo Y = Inr (Bbox (Some (1 / 6)) 0 (Some (1 / 2)) 1) \<and>
   locator exact [Z, X, Y] demo Z = Inr (Bbox (Some (1 / 2)) 0 (Some 1) 1) \<and>
   (1 / 6 :: real) / (1 / 3) = 1 / 2"
proof -
  have r: "rect demo = (0, 0, 1, 1)" by (simp add: demo_def init_def)
  have o: "distinct [Z, X, Y]" "set [Z, X, Y] = {X, Y, Z}" by auto
  have w: "content_width exact demo X = Inr (Some 1)" "content_width exact demo Y = Inr (Some 2)"
    "content_width exact demo Z = Inr (Some 3)"
    by (simp_all add: demo_def init_def content_width_def get_object_bounds_def
        amin_def amax_def exact_def)
  show ?thesis
    using locator_proportional_bands [OF r o w] r o w by (simp add: Let_def)
qed

lemma bits_numeral:
  "bits 0 = 0" "bits 1 = 1"
  "bits (numeral (Num.Bit0 n)) = Suc (bits (numeral n))"
  "bits (numeral (Num.Bit1 n)) = Suc (bits (numeral n))"
  by (simp_all add: bits.simps [of "numeral (Num.Bit0 n)"] bits.simps [of "numeral (Num.Bit1 n)"]
      bits.simps [of 0] bits.simps [of 1])

lemmas binary64_eval =
  binary64_def exponent_def pow2_def round_half_even_def Let_def bits_numeral

text \<open>
  Claim C1, as stated, fails in the arithmetic of doubles. With content of widths 2, 7
  and 1 in a frame from 0 to 1 the three widths are the doubles nearest to 0.2, 0.7
  and 0.1; added up they give \<open>1 - 2 ^ -53\<close>, which is where the last band ends, not
  1; and the first width divided by the second is not the double that \<open>2 / 7\<close> is.
\<close>

theorem locator_binary64_rounds:
  "rect demo271 = (0, 0, 1, 1) \<and>
   content_width binary64 demo271 X = Inr (Some 2) \<and>
   content_width binary64 demo271 Y = Inr (Some 7) \<and>
   content_width binary64 demo271 Z = Inr (Some 1) \<and>
   map_sum id (\<lambda>d. map d [X, Y, Z]) (band_widths binary64 [X, Y, Z] demo271) =
     Inr [Some (3602879701896397 / 18014398509481984),
          Some (3152519739159347 / 4503599627370496),
          Some (3602879701896397 / 36028797018963968)] \<and>
   (3602879701896397 / 18014398509481984 + 3152519739159347 / 4503599627370496
      + 3602879701896397 / 36028797018963968 :: real) \<noteq> 1 \<and>
   fadd binary64 (fadd binary64 (Some (3602879701896397 / 18014398509481984))
                    (Some (3152519739159347 / 4503599627370496)))
     (Some (3602879701896397 / 36028797018963968)) \<noteq> Some 1 \<and>
   locator binary64 [X, Y, Z] demo271 Z =
     Inr (Bbox (Some (2026619832316723 / 2251799813685248)) 0
            (Some (9007199254740991 / 9007199254740992)) 1) \<and>
   (3602879701896397 / 18014398509481984 :: real) / (3152519739159347 / 4503599627370496)
     \<noteq> 2 / 7 \<and>
   fdiv binary64 (Some (3602879701896397 / 18014398509481984))
     (Some (3152519739159347 / 4503599627370496)) \<noteq> fdiv binary64 (Some 2) (Some 7)"
proof -
  have r: "rect demo271 = (0, 0, 1, 1)" by (simp add: demo271_def init_def)
  have w: "content_width binary64 demo271 X = Inr (Some 2)"
    "content_width binary64 demo271 Y = Inr (Some 7)"
    "content_width binary64 demo271 Z = Inr (Some 1)"
    by (simp_all add: demo271_def init_def content_width_def get_object_bounds_def
        amin_def amax_def binary64_eval del: bits.simps)
  have bw: "band_widths binary64 [X, Y, Z] demo271 =
     Inr (\<lambda>a. case a of X \<Rightarrow> Some (3602879701896397 / 18014398509481984)
                | Y \<Rightarrow> Some (3152519739159347 / 4503599627370496)
                | Z \<Rightarrow> Some (3602879701896397 / 36028797018963968))"
    unfolding band_widths_def r w
    by (auto simp: fadd_def fdiv_def fmul_def binary64_eval fun_eq_iff
        split: view.splits simp del: bits.simps)
  have lz: "locator binary64 [X, Y, Z] demo271 Z =
     Inr (Bbox (Some (2026619832316723 / 2251799813685248)) 0
            (Some (9007199254740991 / 9007199254740992)) 1)"
    unfolding locator_def r bw
    by (simp add: fadd_def binary64_eval del: bits.simps)
  show ?thesis
    unfolding r w bw lz
    by (simp add: fadd_def fdiv_def binary64_eval del: bits.simps)
qed

subsection \<open>Content bounds\<close>

text \<open>
  Claim C4, as the code has it. Asking for the bounds of a view that holds nothing
  raises \<open>ValueError\<close>, the fault of unpacking an empty array, and leaves the slicer as
  it was; the query raises nothing else, and raises only then, so no default box is
  returned.
\<close>

theorem empty_bounds_raise_ValueError:
  "(object_bounds s ax = [] \<longrightarrow> object_bounds_of ax s = (Inl ValueError, s)) \<and>
   (\<forall>e. fst (object_bounds_of ax s) = Inl e \<longrightarrow> e = ValueError \<and> object_bounds s ax = [])"
  by (auto simp: object_bounds_of_def get_object_bounds_def Let_def split: if_splits)

theorem empty_bounds_raise_ValueError_witness:
  "object_bounds fresh X = [] \<and> object_bounds_of X fresh = (Inl ValueError, fresh) \<and>
   fst (object_bounds_of X fresh) = Inl ValueError"
  using empty_bounds_raise_ValueError [of fresh X]
  by (simp add: fresh_def init_def)

text \<open>
  Claim C4, as stated, fails on a slicer just made: the exception is \<open>ValueError\<close>, not
  an \<open>EmptyContentError\<close>.
\<close>

theorem empty_bounds_not_EmptyContentError:
  "fst (object_bounds_of X fresh) = Inl ValueError \<and>
   fst (object_bounds_of X fresh) \<noteq> Inl EmptyContentError"
  by (simp add: object_bounds_of_def get_object_bounds_def fresh_def init_def)

text \<open>
  Claim C10. The bounds of a view that holds at least one entry have
  \<open>xmin \<le> xmax\<close> and \<open>ymin \<le> ymax\<close>, whatever the entries are: each bound is taken over
  the minima and the maxima of the entries together.
\<close>

theorem get_object_bounds_ordered:
  assumes "bs \<noteq> []"
  shows "\<exists>xmin xmax ymin ymax.
           get_object_bounds bs = Inr (xmin, xmax, ymin, ymax) \<and> xmin \<le> xmax \<and> ymin \<le> ymax"
proof -
  let ?xmins = "map (\<lambda>(a, b, c, d). a) bs"
  let ?xmaxs = "map (\<lambda>(a, b, c, d). b) bs"
  let ?ymins = "map (\<lambda>(a, b, c, d). c) bs"
  let ?ymaxs = "map (\<lambda>(a, b, c, d). d) bs"
  have ne: "?xmins \<noteq> []" "?ymins \<noteq> []" using assms by simp_all
  have x: "amin ?xmins \<le> amax ?xmins"
    using ne by (simp add: amin_Min amax_Max)
  have y: "amin ?ymins \<le> amax ?ymins"
    using ne by (simp add: amin_Min amax_Max)
  have "min (amin ?xmins) (amin ?xmaxs) \<le> max (amax ?xmaxs) (amax ?xmins)"
    using x by (simp add: min_le_iff_disj le_max_iff_disj)
  moreover have "min (amin ?ymins) (amin ?ymaxs) \<le> max (amax ?ymaxs) (amax ?ymins)"
    using y by (simp add: min_le_iff_disj le_max_iff_disj)
  ultimately show ?thesis
    using assms by (simp add: get_object_bounds_def Let_def)
qed

theorem get_object_bounds_ordered_witness:
  "[(5, 1, 7, 2), (0, 3, 4, 4)] \<noteq> ([] :: box list) \<and>
   get_object_bounds [(5, 1, 7, 2), (0, 3, 4, 4)] = Inr (0, 5, 2, 7) \<and>
   (0::real) \<le> 5 \<and> (2::real) \<le> 7"
  using get_object_bounds_ordered [of "[(5, 1, 7, 2), (0, 3, 4, 4)]"]
  by (simp add: get_object_bounds_def amin_def amax_def)

subsection \<open>The crosshair\<close>

lemma cut_coords_then_do:
  assumes "\<And>t. cut_coords (snd (m t)) = cut_coords t"
    and "\<And>a t. cut_coords (snd (f a t)) = cut_coords t"
  shows "cut_coords (snd (then_do m f s)) = cut_coords s"
proof (cases "m s")
  case (Pair r t)
  then have "cut_coords t = cut_coords s" using assms(1) [of s] by simp
  then show ?thesis
    using Pair assms(2) by (cases r) (simp_all add: then_do_def)
qed

lemma cut_coords_call_ax: "cut_coords (snd (call_ax raises ax c s)) = cut_coords s"
  by (simp add: call_ax_def split: option.splits)

lemma cut_coords_object_bounds_of: "cut_coords (snd (object_bounds_of ax s)) = cut_coords s"
  by (simp add: object_bounds_of_def)

lemma cut_coords_draw_cross: "cut_coords (snd (draw_cross raises cc kwargs s)) = cut_coords s"
proof -
  obtain x y z where c: "(case cc of None \<Rightarrow> cut_coords s | Some c \<Rightarrow> c) = (x, y, z)"
    using prod_cases3 by blast
  show ?thesis
    unfolding draw_cross_def c prod.case
    by (intro cut_coords_then_do cut_coords_call_ax cut_coords_object_bounds_of)
qed

lemma draw_cross_default:
  "draw_cross raises None kwargs s = draw_cross raises (Some (cut_coords s)) kwargs s"
  by (simp add: draw_cross_def)

text \<open>
  When the \<open>'y'\<close> view holds content and matplotlib accepts the calls, \<open>draw_cross\<close>
  draws on \<open>'x'\<close> a vertical line at \<open>x\<close> and a horizontal one at \<open>z\<close>, on \<open>'y'\<close> a
  vertical line at \<open>y\<close> and a horizontal one at \<open>z\<close>, on \<open>'z'\<close> a vertical line at \<open>x\<close>
  and a horizontal one at \<open>y\<close>, and nothing else.
\<close>

lemma draw_cross_lines:
  assumes "object_bounds s Y \<noteq> []" and "\<And>ax c. raises ax c = None"
    and "(case cc of None \<Rightarrow> cut_coords s | Some c \<Rightarrow> c) = (x, y, z)"
  shows "draw_cross raises cc kwargs s =
     (Inr (), s\<lparr>axes := (\<lambda>ax. axes s ax @
        (case ax of
           X \<Rightarrow> [Axvline x 0.05 0.95 kwargs, Axhline z None kwargs]
         | Y \<Rightarrow> [Axvline y 0.05 0.95 kwargs, Axhline z (Some 0.95) kwargs]
         | Z \<Rightarrow> [Axvline x 0.05 0.95 kwargs, Axhline y None kwargs]))\<rparr>)"
proof -
  obtain b where b: "get_object_bounds (object_bounds s Y) = Inr b"
    using get_object_bounds_Inr [OF assms(1)] by blast
  have "(axes s)(X := axes s X @ [Axvline x 0.05 0.95 kwargs, Axhline z None kwargs],
                 Y := axes s Y @ [Axvline y 0.05 0.95 kwargs, Axhline z (Some 0.95) kwargs],
                 Z := axes s Z @ [Axvline x 0.05 0.95 kwargs, Axhline y None kwargs])
        = (\<lambda>ax. axes s ax @
        (case ax of
           X \<Rightarrow> [Axvline x 0.05 0.95 kwargs, Axhline z None kwargs]
         | Y \<Rightarrow> [Axvline y 0.05 0.95 kwargs, Axhline z (Some 0.95) kwargs]
         | Z \<Rightarrow> [Axvline x 0.05 0.95 kwargs, Axhline y None kwargs]))"
    by (auto simp: fun_eq_iff split: view.splits)
  then show ?thesis
    using assms(2,3) b
    by (simp add: draw_cross_def then_do_def call_ax_def object_bounds_of_def)
qed

text \<open>
  Claim C3 at a slicer just made. The call \<open>draw_cross((4, 5, 6))\<close> draws the two lines
  of the \<open>'x'\<close> view, then raises \<open>ValueError\<close> where it asks for the bounds of the
  \<open>'y'\<close> view: the \<open>'y'\<close> and \<open>'z'\<close> views receive no line.
\<close>

theorem draw_cross_fresh_raises:
  "fst (draw_cross no_raise (Some (4, 5, 6)) [] fresh) = Inl ValueError \<and>
   axes (snd (draw_cross no_raise (Some (4, 5, 6)) [] fresh)) X =
     [AxisOff, SetAxesLocator, Axvline 4 0.05 0.95 [], Axhline 6 None []] \<and>
   axes (snd (draw_cross no_raise (Some (4, 5, 6)) [] fresh)) Y = [AxisOff, SetAxesLocator] \<and>
   axes (snd (draw_cross no_raise (Some (4, 5, 6)) [] fresh)) Z = [AxisOff, SetAxesLocator]"
  by (simp add: draw_cross_def then_do_def call_ax_def no_raise_def fresh_def init_def
      object_bounds_of_def get_object_bounds_def)

text \<open>
  Claim C7. A call of \<open>draw_cross\<close> with coordinates of its own leaves the stored cut
  coordinates as they were, whether it returns or raises, and a call without
  coordinates made after it draws with the stored ones.
\<close>

theorem draw_cross_keeps_default:
  "cut_coords (snd (draw_cross raises (Some c) kwargs s)) = cut_coords s \<and>
   draw_cross raises None kwargs (snd (draw_cross raises (Some c) kwargs s)) =
     draw_cross raises (Some (cut_coords s)) kwargs (snd (draw_cross raises (Some c) kwargs s))"
  by (simp add: cut_coords_draw_cross draw_cross_default)

subsection \<open>Annotations\<close>

text \<open>
  Claim C9. With \<open>left_right\<close> false and \<open>positions\<close> true, \<open>annotate\<close> reads the local
  \<open>ax_x\<close> that was never assigned: it raises \<open>UnboundLocalError\<close> and has drawn
  nothing.
\<close>

theorem annotate_positions_only_unbound:
  "annotate raises False True fontsize kwargs s = (Inl UnboundLocalError, s)"
  by (simp add: annotate_def then_do_def ret_def local_var_def split: prod.splits)

subsection \<open>Appended entries\<close>

lemma append_all_bounds:
  "object_bounds (append_all ax bs s) = (object_bounds s)(ax := object_bounds s ax @ bs)"
  by (induction bs arbitrary: s) (simp_all add: append_bounds_def)

lemma union_of_well_formed:
  assumes "bs \<noteq> []" and "\<forall>(a, b, c, d) \<in> set bs. a \<le> b \<and> c \<le> d"
  shows "get_object_bounds bs =
           Inr (Min ((\<lambda>(a, b, c, d). a) ` set bs), Max ((\<lambda>(a, b, c, d). b) ` set bs),
                Min ((\<lambda>(a, b, c, d). c) ` set bs), Max ((\<lambda>(a, b, c, d). d) ` set bs))"
proof -
  let ?A = "(\<lambda>(a, b, c, d). a) ` set bs" and ?B = "(\<lambda>(a, b, c, d). b) ` set bs"
  let ?C = "(\<lambda>(a, b, c, d). c) ` set bs" and ?D = "(\<lambda>(a, b, c, d). d) ` set bs"
  have fin: "finite ?A" "finite ?B" "finite ?C" "finite ?D" by simp_all
  have ne: "?A \<noteq> {}" "?B \<noteq> {}" "?C \<noteq> {}" "?D \<noteq> {}" using assms(1) by simp_all
  have "Min ?A \<le> v" if "v \<in> ?B" for v
  proof -
    from that obtain a b c d where m: "(a, b, c, d) \<in> set bs" and v: "v = b" by auto
    then have "a \<in> ?A" by force
    then have "Min ?A \<le> a" using fin by simp
    moreover have "a \<le> b" using assms(2) m by auto
    ultimately show ?thesis using v by simp
  qed
  then have 1: "Min ?A \<le> Min ?B" using fin ne by simp
  have "v \<le> Max ?B" if "v \<in> ?A" for v
  proof -
    from that obtain a b c d where m: "(a, b, c, d) \<in> set bs" and v: "v = a" by auto
    then have "b \<in> ?B" by force
    then have "b \<le> Max ?B" using fin by simp
    moreover have "a \<le> b" using assms(2) m by auto
    ultimately show ?thesis using v by simp
  qed
  then have 2: "Max ?A \<le> Max ?B" using fin ne by simp
  have "Min ?C \<le> v" if "v \<in> ?D" for v
  proof -
    from that obtain a b c d where m: "(a, b, c, d) \<in> set bs" and v: "v = d" by auto
    then have "c \<in> ?C" by force
    then have "Min ?C \<le> c" using fin by simp
    moreover have "c \<le> d" using assms(2) m by auto
    ultimately show ?thesis using v by simp
  qed
  then have 3: "Min ?C \<le> Min ?D" using fin ne by simp
  have "v \<le> Max ?D" if "v \<in> ?C" for v
  proof -
    from that obtain a b c d where m: "(a, b, c, d) \<in> set bs" and v: "v = c" by auto
    then have "d \<in> ?D" by force
    then have "d \<le> Max ?D" using fin by simp
    moreover have "c \<le> d" using assms(2) m by auto
    ultimately show ?thesis using v by simp
  qed
  then have 4: "Max ?C \<le> Max ?D" using fin ne by simp
  show ?thesis
    using assms(1) 1 2 3 4
    by (simp add: get_object_bounds_def Let_def amin_Min amax_Max min_absorb1 max_absorb1)
qed

text \<open>
  Claim C5, as the code has it. Appending entries to the record of a view keeps the
  entries it held, in their order, puts the new ones after them in the order given and
  leaves the records of the other views alone. When every entry has
  \<open>xmin \<le> xmax\<close> and \<open>ymin \<le> ymax\<close>, the bounds computed afterwards are, axis by
  axis, the least of the minima and the greatest of the maxima of all the entries.
\<close>

theorem appends_keep_order_and_union:
  assumes "object_bounds s ax @ bs \<noteq> []"
    and "\<forall>(a, b, c, d) \<in> set (object_bounds s ax @ bs). a \<le> b \<and> c \<le> d"
  shows "object_bounds (append_all ax bs s) ax = object_bounds s ax @ bs \<and>
         (\<forall>ax'. ax' \<noteq> ax \<longrightarrow> object_bounds (append_all ax bs s) ax' = object_bounds s ax') \<and>
         fst (object_bounds_of ax (append_all ax bs s)) =
           Inr (Min ((\<lambda>(a, b, c, d). a) ` set (object_bounds s ax @ bs)),
                Max ((\<lambda>(a, b, c, d). b) ` set (object_bounds s ax @ bs)),
                Min ((\<lambda>(a, b, c, d). c) ` set (object_bounds s ax @ bs)),
                Max ((\<lambda>(a, b, c, d). d) ` set (object_bounds s ax @ bs)))"
  using union_of_well_formed [OF assms]
  by (simp add: append_all_bounds object_bounds_of_def)

theorem appends_keep_order_and_union_witness:
  "object_bounds (append_all X [(0, 1, 0, 2), (- 1, 3, 1, 5)] fresh) X
     = [(0, 1, 0, 2), (- 1, 3, 1, 5)] \<and>
   object_bounds (append_all X [(0, 1, 0, 2), (- 1, 3, 1, 5)] fresh) Y = [] \<and>
   fst (object_bounds_of X (append_all X [(0, 1, 0, 2), (- 1, 3, 1, 5)] fresh))
     = Inr (- 1, 3, 0, 5)"
proof -
  have e: "object_bounds fresh = (\<lambda>ax. [])" by (simp add: fresh_def init_def)
  show ?thesis
    using appends_keep_order_and_union [of fresh X "[(0, 1, 0, 2), (- 1, 3, 1, 5)]"]
    by (simp add: e)
qed

text \<open>
  Claim C5, as stated, fails for an entry whose minimum is above its maximum: after
  \<open>(5, 1, 0, 0)\<close> alone the bounds are \<open>(1, 5, 0, 0)\<close>, while the least of the minima is
  5 and the greatest of the maxima is 1.
\<close>

theorem malformed_entry_union:
  "fst (object_bounds_of X (append_all X [(5, 1, 0, 0)] fresh)) = Inr (1, 5, 0, 0) \<and>
   (Min ((\<lambda>(a, b, c, d). a) ` set [(5 :: real, 1 :: real, 0 :: real, 0 :: real)]),
    Max ((\<lambda>(a, b, c, d). b) ` set [(5 :: real, 1 :: real, 0 :: real, 0 :: real)]),
    Min ((\<lambda>(a, b, c, d). c) ` set [(5 :: real, 1 :: real, 0 :: real, 0 :: real)]),
    Max ((\<lambda>(a, b, c, d). d) ` set [(5 :: real, 1 :: real, 0 :: real, 0 :: real)]))
     = (5, 1, 0, 0)"
  by (simp add: object_bounds_of_def append_bounds_def fresh_def init_def
      get_object_bounds_def amin_def amax_def)

subsection \<open>Plotting a map\<close>

lemma run_eq: "fst p = r \<Longrightarrow> p = (r, snd p)"
  by (cases p) simp

lemma then_do_cases:
  assumes "then_do m f s = (r, s')"
  shows "(\<exists>e. m s = (Inl e, s') \<and> r = Inl e) \<or> (\<exists>a t. m s = (Inr a, t) \<and> f a t = (r, s'))"
  using assms by (auto simp: then_do_def split: prod.splits sum.splits)

lemma plot_view_Inr:
  "plot_view raises ax sl extent entry kwargs s = (Inr u, s') \<longleftrightarrow>
     (\<exists>m b. sl = Inr m \<and> raises ax (Imshow (rot90 m) extent kwargs) = None \<and>
            get_object_bounds (object_bounds s ax @ [entry]) = Inr b \<and>
            raises ax (Axis b) = None \<and>
            s' = s\<lparr>object_bounds := (object_bounds s)(ax := object_bounds s ax @ [entry]),
                   axes := (axes s)(ax := axes s ax @ [Imshow (rot90 m) extent kwargs, Axis b])\<rparr>)"
  by (cases sl)
     (auto simp: plot_view_def then_do_def from_result_def call_ax_def append_bounds_def
        object_bounds_of_def split: option.splits sum.splits)

lemma plot_view_bounds:
  assumes "plot_view raises ax sl extent entry kwargs s = (r, s')"
  shows "cut_coords s' = cut_coords s \<and>
         (object_bounds s' = object_bounds s \<and> (\<exists>e. r = Inl e) \<or>
          object_bounds s' = (object_bounds s)(ax := object_bounds s ax @ [entry]))"
  using assms
  by (cases sl)
     (auto simp: plot_view_def then_do_def from_result_def call_ax_def append_bounds_def
        object_bounds_of_def split: option.splits sum.splits)

lemma plot_map_setup_Inr:
  assumes "plot_map_setup E vol affine kwargs (x, y, z) = Inr (idx, full, tight, kw)"
  shows "\<exists>cx cy cz. world_to_voxel E x y z affine = Inr (cx, cy, cz) \<and>
           idx = (py_round cx, py_round cy, py_round cz) \<and>
           get_bounds E (shape3 vol) affine = Inr full \<and>
           (case mask vol of None \<Rightarrow> tight = full
            | Some m \<Rightarrow> get_mask_bounds E (logical_not m) affine = Inr tight)"
  using assms
  by (auto simp: plot_map_setup_def split: sum.splits option.splits if_splits)

lemma plot_map_InrE:
  assumes "plot_map E vol affine kwargs s = (Inr u, s')"
  obtains x_map y_map z_map xmin xmax ymin ymax zmin zmax xmin' xmax' ymin' ymax' zmin' zmax'
    kw sx sy sz bx "by" bz
  where "plot_map_setup E vol affine kwargs (cut_coords s) =
           Inr ((x_map, y_map, z_map), (xmin, xmax, ymin, ymax, zmin, zmax),
                (xmin', xmax', ymin', ymax', zmin', zmax'), kw)"
    and "take_second vol y_map = Inr sx" and "take_first vol x_map = Inr sy"
    and "take_third vol z_map = Inr sz"
    and "object_bounds s' X = object_bounds s X @ [(xmin', xmax', zmin', zmax')]"
    and "object_bounds s' Y = object_bounds s Y @ [(ymin', ymax', zmin', zmax')]"
    and "object_bounds s' Z = object_bounds s Z @ [(xmin', xmax', ymin', ymax')]"
    and "axes s' X = axes s X @ [Imshow (rot90 sx) (xmin, xmax, zmin, zmax) kw, Axis bx]"
    and "axes s' Y = axes s Y @ [Imshow (rot90 sy) (ymin, ymax, zmin, zmax) kw, Axis by]"
    and "axes s' Z = axes s Z @ [Imshow (rot90 sz) (xmin, xmax, ymin, ymax) kw, Axis bz]"
    and "get_object_bounds (object_bounds s' X) = Inr bx"
    and "get_object_bounds (object_bounds s' Y) = Inr by"
    and "get_object_bounds (object_bounds s' Z) = Inr bz"
proof (cases "plot_map_setup E vol affine kwargs (cut_coords s)")
  case (Inl e)
  then show ?thesis using assms by (simp add: plot_map_def)
next
  case (Inr r)
  obtain x_map y_map z_map xmin xmax ymin ymax zmin zmax xmin' xmax' ymin' ymax' zmin' zmax' kw
    where r: "r = ((x_map, y_map, z_map), (xmin, xmax, ymin, ymax, zmin, zmax),
                   (xmin', xmax', ymin', ymax', zmin', zmax'), kw)"
    by (metis prod_cases3 prod_cases4)
  from assms Inr r obtain s1 s2 where
    1: "plot_view (ax_raises E) X (take_second vol y_map) (xmin, xmax, zmin, zmax)
          (xmin', xmax', zmin', zmax') kw s = (Inr (), s1)" and
    2: "plot_view (ax_raises E) Y (take_first vol x_map) (ymin, ymax, zmin, zmax)
          (ymin', ymax', zmin', zmax') kw s1 = (Inr (), s2)" and
    3: "plot_view (ax_raises E) Z (take_third vol z_map) (xmin, xmax, ymin, ymax)
          (xmin', xmax', ymin', ymax') kw s2 = (Inr u, s')"
    by (auto simp: plot_map_def then_do_Inr)
  from 1 obtain sx bx where sx: "take_second vol y_map = Inr sx"
    and bx: "get_object_bounds (object_bounds s X @ [(xmin', xmax', zmin', zmax')]) = Inr bx"
    and s1: "s1 = s\<lparr>object_bounds :=
                      (object_bounds s)(X := object_bounds s X @ [(xmin', xmax', zmin', zmax')]),
                   axes := (axes s)(X := axes s X @
                      [Imshow (rot90 sx) (xmin, xmax, zmin, zmax) kw, Axis bx])\<rparr>"
    unfolding plot_view_Inr by blast
  from 2 obtain sy "by" where sy: "take_first vol x_map = Inr sy"
    and "by": "get_object_bounds (object_bounds s1 Y @ [(ymin', ymax', zmin', zmax')]) = Inr by"
    and s2: "s2 = s1\<lparr>object_bounds :=
                      (object_bounds s1)(Y := object_bounds s1 Y @ [(ymin', ymax', zmin', zmax')]),
                   axes := (axes s1)(Y := axes s1 Y @
                      [Imshow (rot90 sy) (ymin, ymax, zmin, zmax) kw, Axis by])\<rparr>"
    unfolding plot_view_Inr by blast
  from 3 obtain sz bz where sz: "take_third vol z_map = Inr sz"
    and bz: "get_object_bounds (object_bounds s2 Z @ [(xmin', xmax', ymin', ymax')]) = Inr bz"
    and s': "s' = s2\<lparr>object_bounds :=
                      (object_bounds s2)(Z := object_bounds s2 Z @ [(xmin', xmax', ymin', ymax')]),
                   axes := (axes s2)(Z := axes s2 Z @
                      [Imshow (rot90 sz) (xmin, xmax, ymin, ymax) kw, Axis bz])\<rparr>"
    unfolding plot_view_Inr by blast
  show ?thesis
  proof (rule that [of x_map y_map z_map xmin xmax ymin ymax zmin zmax
        xmin' xmax' ymin' ymax' zmin' zmax' kw sx sy sz bx "by" bz])
    show "plot_map_setup E vol affine kwargs (cut_coords s) =
           Inr ((x_map, y_map, z_map), (xmin, xmax, ymin, ymax, zmin, zmax),
                (xmin', xmax', ymin', ymax', zmin', zmax'), kw)"
      using Inr r by simp
  qed (use sx sy sz bx "by" bz in \<open>simp_all add: s1 s2 s'\<close>)
qed

lemma plot_map_bounds:
  assumes "plot_map E vol affine kwargs s = (r, s')"
  shows "object_bounds s' ax = object_bounds s ax \<or>
         (\<exists>b. object_bounds s' ax = object_bounds s ax @ [b])"
proof (cases "plot_map_setup E vol affine kwargs (cut_coords s)")
  case (Inl e)
  then show ?thesis using assms by (simp add: plot_map_def)
next
  case (Inr q)
  obtain x_map y_map z_map xmin xmax ymin ymax zmin zmax xmin' xmax' ymin' ymax' zmin' zmax' kw
    where q: "q = ((x_map, y_map, z_map), (xmin, xmax, ymin, ymax, zmin, zmax),
                   (xmin', xmax', ymin', ymax', zmin', zmax'), kw)"
    by (metis prod_cases3 prod_cases4)
  let ?pX = "plot_view (ax_raises E) X (take_second vol y_map) (xmin, xmax, zmin, zmax)
          (xmin', xmax', zmin', zmax') kw"
  let ?pY = "plot_view (ax_raises E) Y (take_first vol x_map) (ymin, ymax, zmin, zmax)
          (ymin', ymax', zmin', zmax') kw"
  let ?pZ = "plot_view (ax_raises E) Z (take_third vol z_map) (xmin, xmax, ymin, ymax)
          (xmin', xmax', ymin', ymax') kw"
  have run: "then_do ?pX (\<lambda>_. then_do ?pY (\<lambda>_. ?pZ)) s = (r, s')"
    using assms Inr q by (simp add: plot_map_def)
  have step: "object_bounds t' ax = object_bounds t ax \<or>
              (\<exists>b. object_bounds t' ax = object_bounds t ax @ [b]) \<and> ax = v"
    if "plot_view raises v sl extent entry kw t = (r', t')"
    for raises v sl extent entry t t' r'
  proof (cases "ax = v")
    case True
    then show ?thesis using plot_view_bounds [OF that] by fastforce
  next
    case False
    then show ?thesis using plot_view_bounds [OF that] by fastforce
  qed
  from then_do_cases [OF run] show ?thesis
  proof (elim disjE exE conjE)
    fix e assume "?pX s = (Inl e, s')"
    then show ?thesis using step by blast
  next
    fix a s1 assume 1: "?pX s = (Inr a, s1)"
      and rest: "then_do ?pY (\<lambda>_. ?pZ) s1 = (r, s')"
    from then_do_cases [OF rest] show ?thesis
    proof (elim disjE exE conjE)
      fix e assume 2: "?pY s1 = (Inl e, s')"
      show ?thesis using step [OF 1] step [OF 2] by (cases ax) auto
    next
      fix a' s2 assume 2: "?pY s1 = (Inr a', s2)" and 3: "?pZ s2 = (r, s')"
      show ?thesis using step [OF 1] step [OF 2] step [OF 3] by (cases ax) auto
    qed
  qed
qed

lemma plot_map_setup_fails:
  assumes "plot_map_setup E vol affine kwargs (cut_coords s) = Inl e"
  shows "plot_map E vol affine kwargs s = (Inl e, s)"
  using assms by (simp add: plot_map_def)

text \<open>
  Claim C2, as the code has it. In a call of \<open>plot_map\<close> that returns, each view is
  sent one image, the slice at the rounded voxel index of the cut, turned a quarter,
  with the bounds of the whole map on the two axes of the view as extent: the \<open>'x'\<close>
  view (first in the layout, crossed at \<open>(x, z)\<close>) shows the slice with the second
  index fixed, over \<open>(xmin, xmax, zmin, zmax)\<close>; the \<open>'y'\<close> view shows the slice with
  the first index fixed, over \<open>(ymin, ymax, zmin, zmax)\<close>; the \<open>'z'\<close> view shows the
  slice with the third index fixed, over \<open>(xmin, xmax, ymin, ymax)\<close>.
\<close>

theorem plot_map_shows_slices:
  assumes "plot_map E vol affine kwargs s = (Inr u, s')"
    and "cut_coords s = (x, y, z)"
    and "world_to_voxel E x y z affine = Inr (cx, cy, cz)"
    and "get_bounds E (shape3 vol) affine = Inr (xmin, xmax, ymin, ymax, zmin, zmax)"
  shows "\<exists>sx sy sz kw bx b_y bz.
      take_second vol (py_round cy) = Inr sx \<and>
      take_first vol (py_round cx) = Inr sy \<and>
      take_third vol (py_round cz) = Inr sz \<and>
      axes s' X = axes s X @ [Imshow (rot90 sx) (xmin, xmax, zmin, zmax) kw, Axis bx] \<and>
      axes s' Y = axes s Y @ [Imshow (rot90 sy) (ymin, ymax, zmin, zmax) kw, Axis b_y] \<and>
      axes s' Z = axes s Z @ [Imshow (rot90 sz) (xmin, xmax, ymin, ymax) kw, Axis bz]"
proof -
  from assms(1) obtain x_map y_map z_map fxmin fxmax fymin fymax fzmin fzmax tight
    kw sx sy sz bx b_y bz where
    stp: "plot_map_setup E vol affine kwargs (cut_coords s) =
           Inr ((x_map, y_map, z_map), (fxmin, fxmax, fymin, fymax, fzmin, fzmax), tight, kw)" and
    sl: "take_second vol y_map = Inr sx" "take_first vol x_map = Inr sy"
        "take_third vol z_map = Inr sz" and
    ax: "axes s' X = axes s X @ [Imshow (rot90 sx) (fxmin, fxmax, fzmin, fzmax) kw, Axis bx]"
        "axes s' Y = axes s Y @ [Imshow (rot90 sy) (fymin, fymax, fzmin, fzmax) kw, Axis b_y]"
        "axes s' Z = axes s Z @ [Imshow (rot90 sz) (fxmin, fxmax, fymin, fymax) kw, Axis bz]"
    by (rule plot_map_InrE)
  from plot_map_setup_Inr [OF stp [unfolded assms(2)]] assms(3,4)
  have "(x_map, y_map, z_map) = (py_round cx, py_round cy, py_round cz)"
    and "(fxmin, fxmax, fymin, fymax, fzmin, fzmax) = (xmin, xmax, ymin, ymax, zmin, zmax)"
    by auto
  then show ?thesis using sl ax by blast
qed

theorem plot_map_shows_slices_witness:
  "fst (plot_map demo_env cube identity_affine [] (init (0, 1, 0) None)) = Inr () \<and>
   cut_coords (init (0, 1, 0) None :: (real, real) slicer) = (0, 1, 0) \<and>
   world_to_voxel demo_env 0 1 0 identity_affine = Inr (0, 1, 0) \<and>
   get_bounds demo_env (shape3 cube) identity_affine = Inr (0, 1, 0, 1, 0, 1) \<and>
   (\<exists>sx sy sz kw bx b_y bz.
      take_second cube (py_round 1) = Inr sx \<and>
      take_first cube (py_round 0) = Inr sy \<and>
      take_third cube (py_round 0) = Inr sz \<and>
      axes (snd (plot_map demo_env cube identity_affine [] (init (0, 1, 0) None))) X =
        axes (init (0, 1, 0) None) X @ [Imshow (rot90 sx) (0, 1, 0, 1) kw, Axis bx] \<and>
      axes (snd (plot_map demo_env cube identity_affine [] (init (0, 1, 0) None))) Y =
        axes (init (0, 1, 0) None) Y @ [Imshow (rot90 sy) (0, 1, 0, 1) kw, Axis b_y] \<and>
      axes (snd (plot_map demo_env cube identity_affine [] (init (0, 1, 0) None))) Z =
        axes (init (0, 1, 0) None) Z @ [Imshow (rot90 sz) (0, 1, 0, 1) kw, Axis bz])"
proof -
  have f: "fst (plot_map demo_env cube identity_affine [] (init (0, 1, 0) None)) = Inr ()"
    by code_simp
  have c: "cut_coords (init (0, 1, 0) None :: (real, real) slicer) = (0, 1, 0)"
    by (simp add: init_def)
  have w: "world_to_voxel demo_env 0 1 0 identity_affine = Inr (0, 1, 0)"
    by (simp add: demo_env_def)
  have g: "get_bounds demo_env (shape3 cube) identity_affine = Inr (0, 1, 0, 1, 0, 1)"
    by code_simp
  show ?thesis
    using plot_map_shows_slices [OF run_eq [OF f] c w g] f c w g by simp
qed

text \<open>
  Claim C2, as stated, fails on the map of shape \<open>(2, 2, 2)\<close> cut at the voxel
  \<open>(0, 1, 0)\<close>: the \<open>'x'\<close> view shows the slice with the second index fixed at 1, the
  \<open>'y'\<close> view the slice with the first index fixed at 0, and the two slices differ.
\<close>

theorem plot_map_x_view_fixes_second_index:
  "fst (plot_map demo_env cube identity_affine [] (init (0, 1, 0) None)) = Inr () \<and>
   shown (axes (snd (plot_map demo_env cube identity_affine [] (init (0, 1, 0) None))) X) =
     [([[3, 7], [2, 6]], (0, 1, 0, 1))] \<and>
   shown (axes (snd (plot_map demo_env cube identity_affine [] (init (0, 1, 0) None))) Y) =
     [([[1, 3], [0, 2]], (0, 1, 0, 1))] \<and>
   map_sum id (rows \<circ> rot90) (take_first cube 0) = Inr [[1, 3], [0, 2]] \<and>
   map_sum id (rows \<circ> rot90) (take_second cube 1) = Inr [[3, 7], [2, 6]]"
  by code_simp

text \<open>
  Claim C8, as the code has it. A call of \<open>plot_map\<close> that raises keeps every entry
  registered before it, in order: the record of each view is the one it had, with at
  most one entry appended. When the exception comes from the first lines (the
  coordinate helpers, the value range), nothing at all has changed.
\<close>

theorem plot_map_failure_keeps_entries:
  assumes "plot_map E vol affine kwargs s = (Inl e, s')"
  shows "(\<forall>ax. object_bounds s' ax = object_bounds s ax \<or>
               (\<exists>b. object_bounds s' ax = object_bounds s ax @ [b])) \<and>
         ((\<exists>e'. plot_map_setup E vol affine kwargs (cut_coords s) = Inl e') \<longrightarrow> s' = s)"
  using assms plot_map_bounds [OF assms] plot_map_setup_fails [of E vol affine kwargs s]
  by auto

theorem plot_map_failure_keeps_entries_witness:
  "fst (plot_map singular_env cube identity_affine [] fresh) = Inl (Raised ''LinAlgError'') \<and>
   plot_map_setup singular_env cube identity_affine [] (cut_coords fresh)
     = Inl (Raised ''LinAlgError'') \<and>
   snd (plot_map singular_env cube identity_affine [] fresh) = fresh"
proof -
  have f: "fst (plot_map singular_env cube identity_affine [] fresh) = Inl (Raised ''LinAlgError'')"
    by code_simp
  have g: "plot_map_setup singular_env cube identity_affine [] (cut_coords fresh)
     = Inl (Raised ''LinAlgError'')"
    by code_simp
  show ?thesis
    using plot_map_failure_keeps_entries [OF run_eq [OF f]] f g by blast
qed

text \<open>
  Claim C8, as stated, fails when the cut lies outside a map of one voxel along the
  first axis: the \<open>'x'\<close> view is shown and its entry appended, then slicing for the
  \<open>'y'\<close> view raises \<open>IndexError\<close>.
\<close>

theorem plot_map_second_view_fails_after_append:
  "fst (plot_map demo_env one_voxel identity_affine [] (init (5, 0, 0) None)) = Inl IndexError \<and>
   object_bounds (init (5, 0, 0) None :: (real, real) slicer) X = [] \<and>
   object_bounds (snd (plot_map demo_env one_voxel identity_affine [] (init (5, 0, 0) None))) X
     = [(0, 0, 0, 0)]"
  by code_simp

subsection \<open>Masked maps\<close>

lemma scaled_between:
  fixes a t n :: real
  assumes "0 \<le> t" and "t \<le> n"
  shows "0 \<le> a * t \<and> a * t \<le> a * n \<or> a * n \<le> a * t \<and> a * t \<le> 0"
proof (cases "0 \<le> a")
  case True
  then show ?thesis using assms by (simp add: mult_left_mono)
next
  case False
  then have "a \<le> 0" by simp
  then show ?thesis using assms
    by (simp add: mult_left_mono_neg mult_nonpos_nonneg)
qed

lemma corner_sums_between:
  fixes u v w U V W d :: real
  assumes "0 \<le> u \<and> u \<le> U \<or> U \<le> u \<and> u \<le> 0"
    and "0 \<le> v \<and> v \<le> V \<or> V \<le> v \<and> v \<le> 0"
    and "0 \<le> w \<and> w \<le> W \<or> W \<le> w \<and> w \<le> 0"
  shows "amin [d, W + d, V + d, V + W + d, U + d, U + W + d, U + V + d, U + V + W + d]
           \<le> u + v + w + d"
    and "u + v + w + d
           \<le> amax [d, W + d, V + d, V + W + d, U + d, U + W + d, U + V + d, U + V + W + d]"
proof -
  let ?xs = "[d, W + d, V + d, V + W + d, U + d, U + W + d, U + V + d, U + V + W + d]"
  let ?t = "u + v + w + d"
  have am: "amin ?xs = Min (set ?xs)" and ax: "amax ?xs = Max (set ?xs)"
    by (rule amin_Min, simp) (rule amax_Max, simp)
  obtain u' where u': "u' = 0 \<or> u' = U" "u' \<le> u" using assms(1) by fastforce
  obtain v' where v': "v' = 0 \<or> v' = V" "v' \<le> v" using assms(2) by fastforce
  obtain w' where w': "w' = 0 \<or> w' = W" "w' \<le> w" using assms(3) by fastforce
  have "u' + v' + w' + d \<in> set ?xs" using u'(1) v'(1) w'(1) by auto
  then have "Min (set ?xs) \<le> u' + v' + w' + d" by (rule Min_le [OF finite_set])
  moreover have "u' + v' + w' + d \<le> ?t" using u'(2) v'(2) w'(2) by simp
  ultimately show "amin ?xs \<le> ?t" unfolding am by (rule order_trans)
  obtain u'' where u'': "u'' = 0 \<or> u'' = U" "u \<le> u''" using assms(1) by fastforce
  obtain v'' where v'': "v'' = 0 \<or> v'' = V" "v \<le> v''" using assms(2) by fastforce
  obtain w'' where w'': "w'' = 0 \<or> w'' = W" "w \<le> w''" using assms(3) by fastforce
  have "u'' + v'' + w'' + d \<in> set ?xs" using u''(1) v''(1) w''(1) by auto
  then have "u'' + v'' + w'' + d \<le> Max (set ?xs)" by (rule Max_ge [OF finite_set])
  moreover have "?t \<le> u'' + v'' + w'' + d" using u''(2) v''(2) w''(2) by simp
  ultimately show "?t \<le> amax ?xs" unfolding ax by (rule order_trans [rotated])
qed

lemma point_within_bounds:
  assumes "i < nx" and "j < ny" and "k < nz"
    and "apply_affine A (real i, real j, real k) = (px, py, pz)"
    and "spec_get_bounds (nx, ny, nz) A = Inr (xmin, xmax, ymin, ymax, zmin, zmax)"
  shows "xmin \<le> px \<and> px \<le> xmax \<and> ymin \<le> py \<and> py \<le> ymax \<and> zmin \<le> pz \<and> pz \<le> zmax"
proof -
  obtain a11 a12 a13 a14 a21 a22 a23 a24 a31 a32 a33 a34 where
    A: "A = ((a11, a12, a13, a14), (a21, a22, a23, a24), (a31, a32, a33, a34))"
    by (metis prod_cases4 prod_cases3)
  have i: "0 \<le> real i" "real i \<le> real nx - 1" using assms(1) by simp_all
  have j: "0 \<le> real j" "real j \<le> real ny - 1" using assms(2) by simp_all
  have k: "0 \<le> real k" "real k \<le> real nz - 1" using assms(3) by simp_all
  note bi = scaled_between [OF i] and bj = scaled_between [OF j] and bk = scaled_between [OF k]
  have p: "px = a11 * real i + a12 * real j + a13 * real k + a14"
    "py = a21 * real i + a22 * real j + a23 * real k + a24"
    "pz = a31 * real i + a32 * real j + a33 * real k + a34"
    using assms(4) by (simp_all add: apply_affine_def A)
  have b: "xmin = amin [a14, a13 * (real nz - 1) + a14, a12 * (real ny - 1) + a14,
                       a12 * (real ny - 1) + a13 * (real nz - 1) + a14,
                       a11 * (real nx - 1) + a14, a11 * (real nx - 1) + a13 * (real nz - 1) + a14,
                       a11 * (real nx - 1) + a12 * (real ny - 1) + a14,
                       a11 * (real nx - 1) + a12 * (real ny - 1) + a13 * (real nz - 1) + a14]"
      "xmax = amax [a14, a13 * (real nz - 1) + a14, a12 * (real ny - 1) + a14,
                       a12 * (real ny - 1) + a13 * (real nz - 1) + a14,
                       a11 * (real nx - 1) + a14, a11 * (real nx - 1) + a13 * (real nz - 1) + a14,
                       a11 * (real nx - 1) + a12 * (real ny - 1) + a14,
                       a11 * (real nx - 1) + a12 * (real ny - 1) + a13 * (real nz - 1) + a14]"
      "ymin = amin [a24, a23 * (real nz - 1) + a24, a22 * (real ny - 1) + a24,
                       a22 * (real ny - 1) + a23 * (real nz - 1) + a24,
                       a21 * (real nx - 1) + a24, a21 * (real nx - 1) + a23 * (real nz - 1) + a24,
                       a21 * (real nx - 1) + a22 * (real ny - 1) + a24,
                       a21 * (real nx - 1) + a22 * (real ny - 1) + a23 * (real nz - 1) + a24]"
      "ymax = amax [a24, a23 * (real nz - 1) + a24, a22 * (real ny - 1) + a24,
                       a22 * (real ny - 1) + a23 * (real nz - 1) + a24,
                       a21 * (real nx - 1) + a24, a21 * (real nx - 1) + a23 * (real nz - 1) + a24,
                       a21 * (real nx - 1) + a22 * (real ny - 1) + a24,
                       a21 * (real nx - 1) + a22 * (real ny - 1) + a23 * (real nz - 1) + a24]"
      "zmin = amin [a34, a33 * (real nz - 1) + a34, a32 * (real ny - 1) + a34,
                       a32 * (real ny - 1) + a33 * (real nz - 1) + a34,
                       a31 * (real nx - 1) + a34, a31 * (real nx - 1) + a33 * (real nz - 1) + a34,
                       a31 * (real nx - 1) + a32 * (real ny - 1) + a34,
                       a31 * (real nx - 1) + a32 * (real ny - 1) + a33 * (real nz - 1) + a34]"
      "zmax = amax [a34, a33 * (real nz - 1) + a34, a32 * (real ny - 1) + a34,
                       a32 * (real ny - 1) + a33 * (real nz - 1) + a34,
                       a31 * (real nx - 1) + a34, a31 * (real nx - 1) + a33 * (real nz - 1) + a34,
                       a31 * (real nx - 1) + a32 * (real ny - 1) + a34,
                       a31 * (real nx - 1) + a32 * (real ny - 1) + a33 * (real nz - 1) + a34]"
    using assms(5)
    by (simp_all add: spec_get_bounds_def bounds_of_def corners_def apply_affine_def A)
  show ?thesis
    unfolding p b
    using corner_sums_between [OF bi [of a11] bj [of a12] bk [of a13], of a14]
      corner_sums_between [OF bi [of a21] bj [of a22] bk [of a23], of a24]
      corner_sums_between [OF bi [of a31] bj [of a32] bk [of a33], of a34]
    by blast
qed

lemma valid_voxels_in_shape:
  assumes "(i, j, k) \<in> set (valid_voxels m)" and "shape3 m = (nx, ny, nz)"
  shows "i < nx \<and> j < ny \<and> k < nz"
  using assms by (auto simp: valid_voxels_def)

text \<open>
  Claim C6, with the bounds helpers as the specification describes them. In a call of
  \<open>plot_map\<close> that returns, on a map with a mask, the entry registered for each view
  is taken from the bounds of the unmasked part and the extent of the image from the
  bounds of the whole map. When a single voxel is unmasked, the entry of each view has
  no area, lies within the extent of the view, and differs from it unless the extent
  is itself a single point.
\<close>

theorem masked_plot_registers_tight_box:
  assumes "plot_map E vol A kwargs s = (Inr u, s')"
    and "mask vol = Some m"
    and "get_bounds E (shape3 vol) A = Inr (xmin, xmax, ymin, ymax, zmin, zmax)"
    and "get_mask_bounds E (logical_not m) A = Inr (xmin', xmax', ymin', ymax', zmin', zmax')"
  shows "object_bounds s' X = object_bounds s X @ [(xmin', xmax', zmin', zmax')] \<and>
         object_bounds s' Y = object_bounds s Y @ [(ymin', ymax', zmin', zmax')] \<and>
         object_bounds s' Z = object_bounds s Z @ [(xmin', xmax', ymin', ymax')] \<and>
         (\<exists>sx sy sz kw bx by bz.
            axes s' X = axes s X @ [Imshow (rot90 sx) (xmin, xmax, zmin, zmax) kw, Axis bx] \<and>
            axes s' Y = axes s Y @ [Imshow (rot90 sy) (ymin, ymax, zmin, zmax) kw, Axis by] \<and>
            axes s' Z = axes s Z @ [Imshow (rot90 sz) (xmin, xmax, ymin, ymax) kw, Axis bz]) \<and>
         (get_bounds E = spec_get_bounds \<and> get_mask_bounds E = spec_get_mask_bounds \<and>
          shape3 m = shape3 vol \<and> valid_voxels (logical_not m) = [(i, j, k)] \<and>
          apply_affine A (real i, real j, real k) = (px, py, pz) \<longrightarrow>
            (xmin', xmax', ymin', ymax', zmin', zmax') = (px, px, py, py, pz, pz) \<and>
            xmin \<le> px \<and> px \<le> xmax \<and> ymin \<le> py \<and> py \<le> ymax \<and> zmin \<le> pz \<and> pz \<le> zmax \<and>
            ((px, px, pz, pz) \<noteq> (xmin, xmax, zmin, zmax) \<longleftrightarrow> xmin < xmax \<or> zmin < zmax) \<and>
            ((py, py, pz, pz) \<noteq> (ymin, ymax, zmin, zmax) \<longleftrightarrow> ymin < ymax \<or> zmin < zmax) \<and>
            ((px, px, py, py) \<noteq> (xmin, xmax, ymin, ymax) \<longleftrightarrow> xmin < xmax \<or> ymin < ymax))"
proof -
  obtain x y z where cc: "cut_coords s = (x, y, z)" using prod_cases3 by blast
  from assms(1) obtain x_map y_map z_map fxmin fxmax fymin fymax fzmin fzmax
    txmin txmax tymin tymax tzmin tzmax kw sx sy sz bx b_y bz where
    stp: "plot_map_setup E vol A kwargs (cut_coords s) =
           Inr ((x_map, y_map, z_map), (fxmin, fxmax, fymin, fymax, fzmin, fzmax),
                (txmin, txmax, tymin, tymax, tzmin, tzmax), kw)" and
    ob: "object_bounds s' X = object_bounds s X @ [(txmin, txmax, tzmin, tzmax)]"
        "object_bounds s' Y = object_bounds s Y @ [(tymin, tymax, tzmin, tzmax)]"
        "object_bounds s' Z = object_bounds s Z @ [(txmin, txmax, tymin, tymax)]" and
    ax: "axes s' X = axes s X @ [Imshow (rot90 sx) (fxmin, fxmax, fzmin, fzmax) kw, Axis bx]"
        "axes s' Y = axes s Y @ [Imshow (rot90 sy) (fymin, fymax, fzmin, fzmax) kw, Axis b_y]"
        "axes s' Z = axes s Z @ [Imshow (rot90 sz) (fxmin, fxmax, fymin, fymax) kw, Axis bz]"
    by (rule plot_map_InrE)
  from plot_map_setup_Inr [OF stp [unfolded cc]] assms(2-4)
  have full: "(fxmin, fxmax, fymin, fymax, fzmin, fzmax) = (xmin, xmax, ymin, ymax, zmin, zmax)"
    and tight: "(txmin, txmax, tymin, tymax, tzmin, tzmax) =
                (xmin', xmax', ymin', ymax', zmin', zmax')"
    by auto
  have part1: "object_bounds s' X = object_bounds s X @ [(xmin', xmax', zmin', zmax')] \<and>
         object_bounds s' Y = object_bounds s Y @ [(ymin', ymax', zmin', zmax')] \<and>
         object_bounds s' Z = object_bounds s Z @ [(xmin', xmax', ymin', ymax')]"
    using ob tight by simp
  have part2: "\<exists>sx sy sz kw bx by bz.
            axes s' X = axes s X @ [Imshow (rot90 sx) (xmin, xmax, zmin, zmax) kw, Axis bx] \<and>
            axes s' Y = axes s Y @ [Imshow (rot90 sy) (ymin, ymax, zmin, zmax) kw, Axis by] \<and>
            axes s' Z = axes s Z @ [Imshow (rot90 sz) (xmin, xmax, ymin, ymax) kw, Axis bz]"
    using ax full by blast
  have part3: "(xmin', xmax', ymin', ymax', zmin', zmax') = (px, px, py, py, pz, pz) \<and>
            xmin \<le> px \<and> px \<le> xmax \<and> ymin \<le> py \<and> py \<le> ymax \<and> zmin \<le> pz \<and> pz \<le> zmax \<and>
            ((px, px, pz, pz) \<noteq> (xmin, xmax, zmin, zmax) \<longleftrightarrow> xmin < xmax \<or> zmin < zmax) \<and>
            ((py, py, pz, pz) \<noteq> (ymin, ymax, zmin, zmax) \<longleftrightarrow> ymin < ymax \<or> zmin < zmax) \<and>
            ((px, px, py, py) \<noteq> (xmin, xmax, ymin, ymax) \<longleftrightarrow> xmin < xmax \<or> ymin < ymax)"
    if gb: "get_bounds E = spec_get_bounds" and gm: "get_mask_bounds E = spec_get_mask_bounds"
      and sh: "shape3 m = shape3 vol" and vv: "valid_voxels (logical_not m) = [(i, j, k)]"
      and p: "apply_affine A (real i, real j, real k) = (px, py, pz)"
  proof -
    obtain nx ny nz where n: "shape3 vol = (nx, ny, nz)" using prod_cases3 by blast
    have "shape3 (logical_not m) = (nx, ny, nz)" using sh n by (simp add: logical_not_def)
    moreover have "(i, j, k) \<in> set (valid_voxels (logical_not m))" using vv by simp
    ultimately have inb: "i < nx" "j < ny" "k < nz"
      using valid_voxels_in_shape by blast+
    have t: "(xmin', xmax', ymin', ymax', zmin', zmax') = (px, px, py, py, pz, pz)"
      using assms(4) gm vv p
      by (simp add: spec_get_mask_bounds_def bounds_of_def amin_def amax_def)
    have "spec_get_bounds (nx, ny, nz) A = Inr (xmin, xmax, ymin, ymax, zmin, zmax)"
      using assms(3) gb n by simp
    from point_within_bounds [OF inb p this]
    have w: "xmin \<le> px" "px \<le> xmax" "ymin \<le> py" "py \<le> ymax" "zmin \<le> pz" "pz \<le> zmax"
      by simp_all
    have "(px, px, pz, pz) \<noteq> (xmin, xmax, zmin, zmax) \<longleftrightarrow> xmin < xmax \<or> zmin < zmax"
      using w by auto
    moreover have "(py, py, pz, pz) \<noteq> (ymin, ymax, zmin, zmax) \<longleftrightarrow> ymin < ymax \<or> zmin < zmax"
      using w by auto
    moreover have "(px, px, py, py) \<noteq> (xmin, xmax, ymin, ymax) \<longleftrightarrow> xmin < xmax \<or> ymin < ymax"
      using w by auto
    ultimately show ?thesis using t w by blast
  qed
  show ?thesis using part1 part2 part3 by blast
qed

theorem masked_plot_registers_tight_box_witness:
  "fst (plot_map demo_env masked_cube identity_affine [] (init (1, 1, 1) None)) = Inr () \<and>
   map_option (valid_voxels \<circ> logical_not) (mask masked_cube) = Some [(1, 2, 0)] \<and>
   get_bounds demo_env (shape3 masked_cube) identity_affine = Inr (0, 2, 0, 2, 0, 2) \<and>
   object_bounds (snd (plot_map demo_env masked_cube identity_affine [] (init (1, 1, 1) None))) X
     = [(1, 1, 0, 0)] \<and>
   object_bounds (snd (plot_map demo_env masked_cube identity_affine [] (init (1, 1, 1) None))) Y
     = [(2, 2, 0, 0)] \<and>
   object_bounds (snd (plot_map demo_env masked_cube identity_affine [] (init (1, 1, 1) None))) Z
     = [(1, 1, 2, 2)] \<and>
   (1, 1, 0, 0) \<noteq> (0 :: real, 2 :: real, 0 :: real, 2 :: real)"
proof -
  let ?m = "\<lparr>shape3 = (3, 3, 3), elem3 = (\<lambda>i j k. \<not> (i = 1 \<and> j = 2 \<and> k = (0::nat)))\<rparr>"
  let ?s = "init (1, 1, 1) None :: (real, real) slicer"
  have f: "fst (plot_map demo_env masked_cube identity_affine [] ?s) = Inr ()"
    by code_simp
  have m: "mask masked_cube = Some ?m" by (simp add: masked_cube_def)
  have g: "get_bounds demo_env (shape3 masked_cube) identity_affine = Inr (0, 2, 0, 2, 0, 2)"
    by code_simp
  have t: "get_mask_bounds demo_env (logical_not ?m) identity_affine = Inr (1, 1, 2, 2, 0, 0)"
    by code_simp
  have v: "valid_voxels (logical_not ?m) = [(1, 2, 0)]" by code_simp
  have p: "apply_affine identity_affine (real 1, real 2, real 0) = (1, 2, 0)" by code_simp
  have e: "get_bounds demo_env = spec_get_bounds" "get_mask_bounds demo_env = spec_get_mask_bounds"
    "shape3 ?m = shape3 masked_cube"
    by (simp_all add: demo_env_def masked_cube_def)
  have o: "object_bounds ?s = (\<lambda>ax. [])" by (simp add: init_def)
  show ?thesis
    using masked_plot_registers_tight_box [OF run_eq [OF f] m g t,
        where i = 1 and j = 2 and k = 0 and px = 1 and py = 2 and pz = 0] f m g v p e
    by (simp add: o)
qed

text \<open>
  Claim C6, as stated, fails on a column of three voxels of which one is unmasked: for
  the \<open>'z'\<close> view the entry registered is the extent of the whole map, not a smaller
  box.
\<close>

theorem masked_column_axial_entry_is_full_extent:
  "fst (plot_map demo_env column identity_affine [] (init (0, 0, 1) None)) = Inr () \<and>
   length (values_of column) = 3 \<and>
   map_option (valid_voxels \<circ> logical_not) (mask column) = Some [(0, 0, 1)] \<and>
   object_bounds (snd (plot_map demo_env column identity_affine [] (init (0, 0, 1) None))) Z
     = [(0, 0, 0, 0)] \<and>
   map snd (shown (axes (snd (plot_map demo_env column identity_affine [] (init (0, 0, 1) None))) Z))
     = [(0, 0, 0, 0)]"
  by code_simp

end
